theory Spec2Isabelle
  imports Main
begin

section \<open>Exceptions, the filesystem and the world\<close>

text \<open>
  The Python exceptions the modelled code can raise. \<open>RequestError\<close> stands for
  \<^verbatim>\<open>httpx.RequestError\<close> (connection failures, timeouts) and carries a description of
  the failure; \<open>HTTPStatusError\<close> is what \<^verbatim>\<open>response.raise_for_status()\<close> raises and
  carries the status code. Every function of the model returns \<open>Inl e\<close> where the Python
  raises \<open>e\<close>, together with the world as the raise leaves it.
\<close>

datatype exn =
    RequestError string
  | HTTPStatusError nat
  | NameError string
  | KeyError string
  | JSONDecodeError
  | TypeError string
  | AttributeError string
  | ValueError string
  | RuntimeError string
  | FileNotFoundError string
  | NotADirectoryError string
  | ZeroDivisionError

text \<open>
  The requests the client sends, and what comes back: the multipart upload of a file
  (name, lines, purpose), the creation of a batch (completion window, endpoint, input
  file id, metadata when given), and a \<open>GET\<close> of a URL. A response has its status code,
  its body read as JSON and its content as lines. The body read as JSON is \<open>None\<close> when
  the body is not JSON; otherwise it is the Python value \<^verbatim>\<open>response.json()\<close> returns: a
  \<open>Dict\<close> for a JSON object, or \<open>Other\<close> for any other JSON value (a list, a string, a
  number, a boolean or null). The values of an object's fields are taken to be strings.
  A request can also fail in transport.
\<close>

datatype py_json = Dict "string \<rightharpoonup> string" | Other

datatype request =
    Post_files string "string list" string
  | Post_batches string string string "(string \<times> string) list option"
  | Get string

record response =
  status_code :: nat
  json_body :: "py_json option"
  content :: "string list"

datatype http_reply = Network_failure string | Reply response

text \<open>
  The log statements of the source, one constructor per statement, with the values the
  message interpolates.
\<close>

datatype log_entry =
    Uploading_file string
  | Uploaded_file_ID string
  | HTTP_error_during_file_upload exn
  | Unexpected_error_during_file_upload exn
  | Creating_batch_job_for_file_ID string
  | Created_batch_ID string
  | HTTP_error_during_batch_creation exn
  | Unexpected_error_during_batch_creation exn
  | HTTP_error_during_status_retrieval exn
  | Unexpected_error_during_status_retrieval exn
  | Downloading_results string string
  | Output_file_URL_not_found string
  | Downloaded_results_to string
  | HTTP_error_during_result_download exn
  | Unexpected_error_during_result_download exn
  | Error_processing_batch_for_file string exn
  | Failed_to_process_batch_for_file string exn
  | The_following_batches_failed "string list"
  | All_batches_processed_successfully
  | Deleted_temporary_file string
  | Failed_to_delete string exn
  | Splitting_the_input
  | Total_chunks_created nat
  | No_chunks_were_created
  | An_error_occurred exn

text \<open>The four decorated client operations, as tenacity keeps statistics for each.\<close>

datatype operation = Upload | Submit | Poll | Fetch

text \<open>
  The world outside the interpreter: the files (a path has a list of lines, or does not
  exist), the remote service (what it replies to the \<open>n\<close>-th request the process sends),
  the requests sent so far with the client that sent each, the clients constructed and
  closed, the directories made, the sleeps taken, the log, and the attempt number tenacity
  recorded for the latest call of each operation. Opening a file for writing creates or truncates it.
\<close>

record world =
  files :: "string \<rightharpoonup> string list"
  server :: "nat \<Rightarrow> request \<Rightarrow> http_reply"
  requests :: "(nat \<times> request) list"
  clients :: nat
  closed :: "nat list"
  directories :: "string list"
  sleeps :: "nat list"
  log :: "log_entry list"
  statistics :: "operation \<Rightarrow> nat"

type_synonym 'a result = "(exn + 'a) \<times> world"

definition logger :: "log_entry \<Rightarrow> world \<Rightarrow> world" where
  "logger e w = w\<lparr>log := log w @ [e]\<rparr>"

definition sleep :: "nat \<Rightarrow> world \<Rightarrow> world" where
  "sleep n w = w\<lparr>sleeps := sleeps w @ [n]\<rparr>"

definition write_file :: "string \<Rightarrow> string list \<Rightarrow> world \<Rightarrow> world" where
  "write_file path ls w = w\<lparr>files := (files w)(path \<mapsto> ls)\<rparr>"

section \<open>utils.py\<close>

subsection \<open>Decimal rendering of the chunk index\<close>

definition digit_char :: "nat \<Rightarrow> char" where
  "digit_char d = ''0123456789'' ! d"

function str_nat :: "nat \<Rightarrow> string" where
  "str_nat n = (if n < 10 then [digit_char n] else str_nat (n div 10) @ [digit_char (n mod 10)])"
  by pat_completeness auto
termination
  by (relation "measure (\<lambda>n. n)") auto

definition digit_val :: "char \<Rightarrow> nat" where
  "digit_val c = of_char c - 48"

definition nat_of_str :: "string \<Rightarrow> nat" where
  "nat_of_str s = foldl (\<lambda>a c. 10 * a + digit_val c) 0 s"

subsection \<open>split_jsonl_file\<close>

text \<open>
  \<^verbatim>\<open>
  def split_jsonl_file(input_file: str, chunk_size: int) -> List[str]:
      chunk_files = []
      with open(input_file, 'r', encoding='utf-8') as infile:
          chunk = []
          chunk_index = 1
          for line_number, line in enumerate(infile, start=1):
              chunk.append(line)
              if line_number % chunk_size == 0:
                  chunk_filename = f"{input_file}_chunk_{chunk_index}.jsonl"
                  with open(chunk_filename, 'w', encoding='utf-8') as chunk_file:
                      chunk_file.writelines(chunk)
                  chunk_files.append(chunk_filename)
                  chunk = []
                  chunk_index += 1
          if chunk:
              chunk_filename = f"{input_file}_chunk_{chunk_index}.jsonl"
              with open(chunk_filename, 'w', encoding='utf-8') as chunk_file:
                  chunk_file.writelines(chunk)
              chunk_files.append(chunk_filename)
      return chunk_files
  \<close>
  The records are the lines of the input file. \<open>chunk_size\<close> is a Python \<open>int\<close>: zero
  makes \<^verbatim>\<open>%\<close> raise, and on a negative one \<^verbatim>\<open>%\<close> is the floored remainder, as \<open>mod\<close> on
  \<open>int\<close> is.
\<close>

definition chunk_filename :: "string \<Rightarrow> nat \<Rightarrow> string" where
  "chunk_filename input_file chunk_index =
     input_file @ ''_chunk_'' @ str_nat chunk_index @ ''.jsonl''"

definition py_mod :: "int \<Rightarrow> int \<Rightarrow> exn + int" where
  "py_mod a b = (if b = 0 then Inl ZeroDivisionError else Inr (a mod b))"

fun split_loop ::
  "string \<Rightarrow> int \<Rightarrow> nat \<Rightarrow> string list \<Rightarrow> string list \<Rightarrow> nat \<Rightarrow> string list \<Rightarrow> world \<Rightarrow>
     (string list \<times> nat \<times> string list) result" where
  "split_loop input_file chunk_size line_number [] chunk chunk_index chunk_files w =
     (Inr (chunk, chunk_index, chunk_files), w)"
| "split_loop input_file chunk_size line_number (line # infile) chunk chunk_index chunk_files w =
     (let chunk1 = chunk @ [line] in
      case py_mod (int line_number) chunk_size of
        Inl e \<Rightarrow> (Inl e, w)
      | Inr r \<Rightarrow>
          if r = 0 then
            let name = chunk_filename input_file chunk_index;
                w1 = write_file name chunk1 w
            in split_loop input_file chunk_size (Suc line_number) infile
                 [] (chunk_index + 1) (chunk_files @ [name]) w1
          else split_loop input_file chunk_size (Suc line_number) infile
                 chunk1 chunk_index chunk_files w)"

definition split_jsonl_file :: "string \<Rightarrow> int \<Rightarrow> world \<Rightarrow> string list result" where
  "split_jsonl_file input_file chunk_size w =
     (case files w input_file of
        None \<Rightarrow> (Inl (FileNotFoundError input_file), w)
      | Some infile \<Rightarrow>
          (case split_loop input_file chunk_size 1 infile [] 1 [] w of
             (Inl e, w1) \<Rightarrow> (Inl e, w1)
           | (Inr (chunk, chunk_index, chunk_files), w1) \<Rightarrow>
               if chunk \<noteq> [] then
                 let name = chunk_filename input_file chunk_index
                 in (Inr (chunk_files @ [name]), write_file name chunk w1)
               else (Inr chunk_files, w1)))"

subsection \<open>clean_up_files\<close>

text \<open>
  \<^verbatim>\<open>
  def clean_up_files(file_paths: List[str], logger: logging.Logger):
      for file_path in file_paths:
          try:
              os.remove(file_path)
              logger.info(f"Deleted temporary file: {file_path}")
          except Exception as e:
              logger.error(f"Failed to delete {file_path}: {e}")
  \<close>
\<close>

definition os_remove :: "string \<Rightarrow> world \<Rightarrow> unit result" where
  "os_remove path w =
     (if files w path = None then (Inl (FileNotFoundError path), w)
      else (Inr (), w\<lparr>files := (files w)(path := None)\<rparr>))"

fun clean_up_files :: "string list \<Rightarrow> world \<Rightarrow> world" where
  "clean_up_files [] w = w"
| "clean_up_files (file_path # file_paths) w =
     (case os_remove file_path w of
        (Inr _, w1) \<Rightarrow> clean_up_files file_paths (logger (Deleted_temporary_file file_path) w1)
      | (Inl e, w1) \<Rightarrow> clean_up_files file_paths (logger (Failed_to_delete file_path e) w1))"

section \<open>batch_manager.py\<close>

subsection \<open>The module namespace, the manager and the HTTP client\<close>

text \<open>
  The names the top-level statements of \<^verbatim>\<open>batch_manager.py\<close> bind (its imports, the logger
  objects and the class). A global name a function body reads is looked up here when the
  body runs, and the lookup raises \<open>NameError\<close> when the name is absent. The functions below
  take the namespace as their first argument, since it is mutable state of the running
  process; \<open>batch_manager_globals\<close> is the namespace as the source file leaves it.
\<close>

definition batch_manager_globals :: "string list" where
  "batch_manager_globals =
     [''asyncio'', ''httpx'', ''json'', ''time'', ''List'', ''Optional'', ''Dict'',
      ''API_KEY'', ''COMPLETION_WINDOW'', ''ENDPOINT'', ''ensure_directory'', ''clean_up_files'',
      ''logging'', ''retry'', ''stop_after_attempt'', ''wait_exponential'',
      ''retry_if_exception_type'', ''tqdm_asyncio'', ''logger'', ''formatter'', ''ch'', ''fh'',
      ''BatchManager'']"

definition load_global :: "string list \<Rightarrow> string \<Rightarrow> exn + unit" where
  "load_global g name = (if name \<in> set g then Inr () else Inl (NameError name))"

record manager =
  api_key :: string
  endpoint :: string
  completion_window :: string
  output_dir :: string
  client :: nat

text \<open>\<^verbatim>\<open>BatchManager.__init__\<close> constructs the one \<^verbatim>\<open>httpx.AsyncClient\<close> of the manager.\<close>

definition BatchManager :: "string \<Rightarrow> string \<Rightarrow> string \<Rightarrow> string \<Rightarrow> world \<Rightarrow> manager \<times> world" where
  "BatchManager key ep cw out w =
     (\<lparr>api_key = key, endpoint = ep, completion_window = cw, output_dir = out,
       client = clients w\<rparr>,
      w\<lparr>clients := Suc (clients w)\<rparr>)"

definition close :: "manager \<Rightarrow> world \<Rightarrow> world" where
  "close self w = w\<lparr>closed := closed w @ [client self]\<rparr>"

text \<open>
  \<^verbatim>\<open>self.client.post(...)\<close> and \<^verbatim>\<open>self.client.get(...)\<close>: a closed client refuses to send;
  otherwise the request goes out and the remote service answers it or the transport fails.
\<close>

definition send :: "manager \<Rightarrow> request \<Rightarrow> world \<Rightarrow> response result" where
  "send self req w =
     (if client self \<in> set (closed w)
      then (Inl (RuntimeError ''Cannot send a request, as the client has been closed.''), w)
      else
        let w1 = w\<lparr>requests := requests w @ [(client self, req)]\<rparr> in
        case server w (length (requests w)) req of
          Network_failure m \<Rightarrow> (Inl (RequestError m), w1)
        | Reply r \<Rightarrow> (Inr r, w1))"

text \<open>\<^verbatim>\<open>response.raise_for_status()\<close> returns on a 2xx status and raises on any other.\<close>

definition raise_for_status :: "response \<Rightarrow> exn + unit" where
  "raise_for_status r =
     (if 200 \<le> status_code r \<and> status_code r < 300 then Inr ()
      else Inl (HTTPStatusError (status_code r)))"

definition json :: "response \<Rightarrow> exn + py_json" where
  "json r = (case json_body r of None \<Rightarrow> Inl JSONDecodeError | Some v \<Rightarrow> Inr v)"

text \<open>
  \<^verbatim>\<open>v['id']\<close>: a dict without the key raises \<open>KeyError\<close>; a list, a string, a number, a
  boolean or \<open>None\<close> subscripted with a string raises \<open>TypeError\<close>.
\<close>

definition getitem :: "py_json \<Rightarrow> string \<Rightarrow> exn + string" where
  "getitem v k =
     (case v of
        Dict d \<Rightarrow> (case d k of None \<Rightarrow> Inl (KeyError k) | Some x \<Rightarrow> Inr x)
      | Other \<Rightarrow> Inl (TypeError ''subscript''))"

text \<open>
  \<^verbatim>\<open>v.get\<close>: a dict has the method, and the model hands the dict back as its lookup; any
  other JSON value has no attribute \<open>get\<close>.
\<close>

definition get_method :: "py_json \<Rightarrow> exn + (string \<rightharpoonup> string)" where
  "get_method v = (case v of Dict d \<Rightarrow> Inr d | Other \<Rightarrow> Inl (AttributeError ''get''))"

text \<open>
  The handlers every operation ends with:
  \<^verbatim>\<open>
  except httpx.HTTPStatusError as e:
      logger.error(f"HTTP error during ...: ...")
      raise
  except Exception as e:
      logger.error(f"Unexpected error during ...: {e}")
      raise
  \<close>
\<close>

definition except_log :: "(exn \<Rightarrow> log_entry) \<Rightarrow> (exn \<Rightarrow> log_entry) \<Rightarrow> 'a result \<Rightarrow> 'a result" where
  "except_log http_error unexpected_error r =
     (case r of
        (Inl e, w) \<Rightarrow>
          (Inl e, logger (case e of HTTPStatusError _ \<Rightarrow> http_error e | _ \<Rightarrow> unexpected_error e) w)
      | (Inr v, w) \<Rightarrow> (Inr v, w))"

subsection \<open>The retry decorator\<close>

text \<open>
  \<^verbatim>\<open>
  @retry(
      reraise=True,
      stop=stop_after_attempt(5),
      wait=wait_exponential(multiplier=1, min=4, max=10),
      retry=retry_if_exception_type(httpx.RequestError),
  )
  \<close>
  tenacity calls the function; an exception that is not a \<open>RequestError\<close> leaves at once; a
  \<open>RequestError\<close> is raised again when the attempt number has reached the stop, and
  otherwise the call sleeps and is tried again. The attempt number is kept in the
  statistics of the decorated function.
\<close>

definition retry_if_exception_type :: "exn \<Rightarrow> bool" where
  "retry_if_exception_type e = (case e of RequestError _ \<Rightarrow> True | _ \<Rightarrow> False)"

definition wait_exponential :: "nat \<Rightarrow> nat \<Rightarrow> nat \<Rightarrow> nat" where
  "wait_exponential lo hi attempt_number = max lo (min (2 ^ (attempt_number - 1)) hi)"

definition record_attempt :: "operation \<Rightarrow> nat \<Rightarrow> world \<Rightarrow> world" where
  "record_attempt op attempt_number w = w\<lparr>statistics := (statistics w)(op := attempt_number)\<rparr>"

function retrying ::
  "operation \<Rightarrow> nat \<Rightarrow> (nat \<Rightarrow> nat) \<Rightarrow> nat \<Rightarrow> (world \<Rightarrow> 'a result) \<Rightarrow> world \<Rightarrow> 'a result" where
  "retrying op stop wait attempt_number fn w =
     (case fn w of
        (Inr v, w1) \<Rightarrow> (Inr v, record_attempt op attempt_number w1)
      | (Inl e, w1) \<Rightarrow>
          if \<not> retry_if_exception_type e then (Inl e, record_attempt op attempt_number w1)
          else if stop \<le> attempt_number then (Inl e, record_attempt op attempt_number w1)
          else retrying op stop wait (Suc attempt_number) fn
                 (sleep (wait attempt_number) (record_attempt op attempt_number w1)))"
  by pat_completeness auto
termination
  by (relation "measure (\<lambda>(op, stop, wait, attempt_number, fn, w). stop - attempt_number)") auto

subsection \<open>upload_file\<close>

text \<open>
  \<^verbatim>\<open>
  async def upload_file(self, file_path: str) -> str:
      logger.info(f"Uploading file: {file_path}")
      upload_url = "/v1/files"
      with open(file_path, 'rb') as f:
          files = {'file': (os.path.basename(file_path), f, 'application/jsonl')}
          data = {'purpose': 'batch'}
          try:
              response = await self.client.post(upload_url, files=files, data=data)
              response.raise_for_status()
              file_id = response.json()['id']
              logger.info(f"Uploaded file ID: {file_id}")
              return file_id
          except httpx.HTTPStatusError as e: ...
          except Exception as e: ...
  \<close>
  The name \<open>os\<close> is read after the file is open and before the \<^verbatim>\<open>try\<close>.
\<close>

definition basename :: "string \<Rightarrow> string" where
  "basename path = rev (takeWhile (\<lambda>c. c \<noteq> CHR ''/'') (rev path))"

definition response_id :: "response \<Rightarrow> exn + string" where
  "response_id response =
     (case raise_for_status response of
        Inl e \<Rightarrow> Inl e
      | Inr _ \<Rightarrow> (case json response of Inl e \<Rightarrow> Inl e | Inr d \<Rightarrow> getitem d ''id''))"

definition upload_file_attempt :: "string list \<Rightarrow> manager \<Rightarrow> string \<Rightarrow> world \<Rightarrow> string result" where
  "upload_file_attempt g self file_path w0 =
     (let w = logger (Uploading_file file_path) w0 in
      case files w file_path of
        None \<Rightarrow> (Inl (FileNotFoundError file_path), w)
      | Some f \<Rightarrow>
          (case load_global g ''os'' of
             Inl e \<Rightarrow> (Inl e, w)
           | Inr _ \<Rightarrow>
               except_log HTTP_error_during_file_upload Unexpected_error_during_file_upload
                 (case send self (Post_files (basename file_path) f ''batch'') w of
                    (Inl e, w1) \<Rightarrow> (Inl e, w1)
                  | (Inr response, w1) \<Rightarrow>
                      (case response_id response of
                         Inl e \<Rightarrow> (Inl e, w1)
                       | Inr file_id \<Rightarrow> (Inr file_id, logger (Uploaded_file_ID file_id) w1)))))"

definition upload_file :: "string list \<Rightarrow> manager \<Rightarrow> string \<Rightarrow> world \<Rightarrow> string result" where
  "upload_file g self file_path w =
     retrying Upload 5 (wait_exponential 4 10) 1 (upload_file_attempt g self file_path) w"

subsection \<open>create_batch\<close>

text \<open>
  \<^verbatim>\<open>
  async def create_batch(self, input_file_id: str, metadata: Optional[Dict[str, str]] = None) -> str:
      logger.info(f"Creating batch job for file ID: {input_file_id}")
      create_url = "/v1/batches"
      payload = {"completion_window": self.completion_window, "endpoint": self.endpoint,
                 "input_file_id": input_file_id}
      if metadata:
          payload["metadata"] = metadata
      try:
          response = await self.client.post(create_url, json=payload)
          response.raise_for_status()
          batch_id = response.json()['id']
          logger.info(f"Created batch ID: {batch_id}")
          return batch_id
      except httpx.HTTPStatusError as e: ...
      except Exception as e: ...
  \<close>
\<close>

definition create_batch_attempt ::
  "manager \<Rightarrow> string \<Rightarrow> (string \<times> string) list option \<Rightarrow> world \<Rightarrow> string result" where
  "create_batch_attempt self input_file_id metadata w0 =
     (let w = logger (Creating_batch_job_for_file_ID input_file_id) w0;
          payload = Post_batches (completion_window self) (endpoint self) input_file_id
                      (if metadata \<noteq> None \<and> metadata \<noteq> Some [] then metadata else None)
      in except_log HTTP_error_during_batch_creation Unexpected_error_during_batch_creation
           (case send self payload w of
              (Inl e, w1) \<Rightarrow> (Inl e, w1)
            | (Inr response, w1) \<Rightarrow>
                (case response_id response of
                   Inl e \<Rightarrow> (Inl e, w1)
                 | Inr batch_id \<Rightarrow> (Inr batch_id, logger (Created_batch_ID batch_id) w1))))"

definition create_batch ::
  "manager \<Rightarrow> string \<Rightarrow> (string \<times> string) list option \<Rightarrow> world \<Rightarrow> string result" where
  "create_batch self input_file_id metadata w =
     retrying Submit 5 (wait_exponential 4 10) 1 (create_batch_attempt self input_file_id metadata) w"

subsection \<open>get_batch_status\<close>

text \<open>
  \<^verbatim>\<open>
  async def get_batch_status(self, batch_id: str) -> dict:
      logger.debug(f"Checking status for batch ID: {batch_id}")
      retrieve_url = f"/v1/batches/{batch_id}"
      try:
          response = await self.client.get(retrieve_url)
          response.raise_for_status()
          status_info = response.json()
          logger.debug(f"Batch {batch_id} status: {status_info.get('status')}")
          return status_info
      except httpx.HTTPStatusError as e: ...
      except Exception as e: ...
  \<close>
  The logger's level is \<open>INFO\<close>, so the two \<open>debug\<close> calls emit nothing; but the message
  of the second is built before the call, and \<^verbatim>\<open>status_info.get('status')\<close> in it raises
  when the body is not a JSON object. So what the operation returns is a dict.
\<close>

definition response_json :: "response \<Rightarrow> exn + py_json" where
  "response_json response =
     (case raise_for_status response of Inl e \<Rightarrow> Inl e | Inr _ \<Rightarrow> json response)"

definition get_batch_status_attempt :: "manager \<Rightarrow> string \<Rightarrow> world \<Rightarrow> (string \<rightharpoonup> string) result" where
  "get_batch_status_attempt self batch_id w =
     except_log HTTP_error_during_status_retrieval Unexpected_error_during_status_retrieval
       (case send self (Get (''/v1/batches/'' @ batch_id)) w of
          (Inl e, w1) \<Rightarrow> (Inl e, w1)
        | (Inr response, w1) \<Rightarrow>
            (case response_json response of
               Inl e \<Rightarrow> (Inl e, w1)
             | Inr status_info \<Rightarrow>
                 (case get_method status_info of
                    Inl e \<Rightarrow> (Inl e, w1)
                  | Inr d \<Rightarrow> (Inr d, w1))))"

definition get_batch_status :: "manager \<Rightarrow> string \<Rightarrow> world \<Rightarrow> (string \<rightharpoonup> string) result" where
  "get_batch_status self batch_id w =
     retrying Poll 5 (wait_exponential 4 10) 1 (get_batch_status_attempt self batch_id) w"

subsection \<open>download_batch_results\<close>

text \<open>
  \<^verbatim>\<open>
  async def download_batch_results(self, batch_id: str, output_file: str):
      logger.info(f"Downloading results for batch ID: {batch_id} to {output_file}")
      batch_info = await self.get_batch_status(batch_id)
      download_url = batch_info.get('output_file_url')
      if not download_url:
          logger.error(f"Output file URL not found for batch ID: {batch_id}")
          raise ValueError("Output file URL not found in batch info.")
      try:
          response = await self.client.get(download_url)
          response.raise_for_status()
          with open(output_file, 'wb') as f:
              f.write(response.content)
          logger.info(f"Downloaded results to {output_file}")
      except httpx.HTTPStatusError as e: ...
      except Exception as e: ...
  \<close>
\<close>

definition download_batch_results_attempt :: "manager \<Rightarrow> string \<Rightarrow> string \<Rightarrow> world \<Rightarrow> unit result" where
  "download_batch_results_attempt self batch_id output_file w0 =
     (let w = logger (Downloading_results batch_id output_file) w0 in
      case get_batch_status self batch_id w of
        (Inl e, w1) \<Rightarrow> (Inl e, w1)
      | (Inr batch_info, w1) \<Rightarrow>
          (case batch_info ''output_file_url'' of
             None \<Rightarrow>
               (Inl (ValueError ''Output file URL not found in batch info.''),
                logger (Output_file_URL_not_found batch_id) w1)
           | Some download_url \<Rightarrow>
               if download_url = [] then
                 (Inl (ValueError ''Output file URL not found in batch info.''),
                  logger (Output_file_URL_not_found batch_id) w1)
               else
                 except_log HTTP_error_during_result_download Unexpected_error_during_result_download
                   (case send self (Get download_url) w1 of
                      (Inl e, w2) \<Rightarrow> (Inl e, w2)
                    | (Inr response, w2) \<Rightarrow>
                        (case raise_for_status response of
                           Inl e \<Rightarrow> (Inl e, w2)
                         | Inr _ \<Rightarrow>
                             (Inr (), logger (Downloaded_results_to output_file)
                                        (write_file output_file (content response) w2))))))"

definition download_batch_results :: "manager \<Rightarrow> string \<Rightarrow> string \<Rightarrow> world \<Rightarrow> unit result" where
  "download_batch_results self batch_id output_file w =
     retrying Fetch 3 (wait_exponential 2 5) 1
       (download_batch_results_attempt self batch_id output_file) w"

subsection \<open>process_batch\<close>

text \<open>
  \<^verbatim>\<open>
  status = None
  with tqdm_asyncio(total=100, desc=f"Batch {batch_id}", unit="%", leave=True) as pbar:
      while True:
          status_info = await self.get_batch_status(batch_id)
          status = status_info.get('status')
          if status == 'succeeded':
              pbar.update(100 - pbar.n)
              break
          elif status in ['failed', 'cancelled']:
              pbar.write(f"Batch {batch_id} ended with status: {status}")
              raise RuntimeError(f"Batch {batch_id} ended with status: {status}")
          else:
              pbar.update(10)
              await asyncio.sleep(30)
  \<close>
  The loop has no bound, so it is a partial function: \<open>None\<close> is the loop that never
  ends. When it ends it returns the last \<open>status\<close>, or the exception raised. The progress
  bar only draws.
\<close>

partial_function (option) poll_loop :: "manager \<Rightarrow> string \<Rightarrow> world \<Rightarrow> string option result option" where
  "poll_loop self batch_id w =
     (case get_batch_status self batch_id w of
        (Inl e, w1) \<Rightarrow> Some (Inl e, w1)
      | (Inr status_info, w1) \<Rightarrow>
          (let status = status_info ''status'' in
           if status = Some ''succeeded'' then Some (Inr status, w1)
           else if status \<in> set [Some ''failed'', Some ''cancelled''] then
             Some (Inl (RuntimeError (''Batch '' @ batch_id @ '' ended with status: '' @ the status)), w1)
           else poll_loop self batch_id (sleep 30 w1)))"

text \<open>
  \<^verbatim>\<open>
  async def process_batch(self, chunk_file: str):
      try:
          file_id = await self.upload_file(chunk_file)
          batch_id = await self.create_batch(file_id)
          ... the polling loop ...
          if status == 'succeeded':
              output_file = f"{self.output_dir}/results_{batch_id}.jsonl"
              await self.download_batch_results(batch_id, output_file)
      except Exception as e:
          logger.error(f"Error processing batch for file {chunk_file}: {e}")
          raise
  \<close>
\<close>

definition process_batch :: "string list \<Rightarrow> manager \<Rightarrow> string \<Rightarrow> world \<Rightarrow> unit result option" where
  "process_batch g self chunk_file w =
     (let except = (\<lambda>e w'. Some (Inl e, logger (Error_processing_batch_for_file chunk_file e) w')) in
      case upload_file g self chunk_file w of
        (Inl e, w1) \<Rightarrow> except e w1
      | (Inr file_id, w1) \<Rightarrow>
          (case create_batch self file_id None w1 of
             (Inl e, w2) \<Rightarrow> except e w2
           | (Inr batch_id, w2) \<Rightarrow>
               (case poll_loop self batch_id w2 of
                  None \<Rightarrow> None
                | Some (Inl e, w3) \<Rightarrow> except e w3
                | Some (Inr status, w3) \<Rightarrow>
                    if status = Some ''succeeded'' then
                      let output_file = output_dir self @ ''/results_'' @ batch_id @ ''.jsonl'' in
                      case download_batch_results self batch_id output_file w3 of
                        (Inl e, w4) \<Rightarrow> except e w4
                      | (Inr _, w4) \<Rightarrow> Some (Inr (), w4)
                    else Some (Inr (), w3))))"

subsection \<open>process_batches\<close>

text \<open>
  \<^verbatim>\<open>
  def ensure_directory(path: str):
      if not os.path.exists(path):
          os.makedirs(path)
  \<close>
  A path exists when it is a file or a directory of the world; the empty path does not
  exist. \<^verbatim>\<open>os.makedirs\<close> raises for the empty path and for a path that has a regular
  file among its ancestors (the prefixes of the path that end before a \<open>/\<close>); otherwise
  it makes the missing ancestors and the directory.
\<close>

definition os_path_exists :: "string \<Rightarrow> world \<Rightarrow> bool" where
  "os_path_exists path w \<longleftrightarrow> path \<noteq> [] \<and> (files w path \<noteq> None \<or> path \<in> set (directories w))"

definition ancestors :: "string \<Rightarrow> string list" where
  "ancestors path = [take i path. i \<leftarrow> [1 ..< length path], path ! i = CHR ''/'']"

definition os_makedirs :: "string \<Rightarrow> world \<Rightarrow> unit result" where
  "os_makedirs path w =
     (if path = [] then (Inl (FileNotFoundError path), w)
      else if \<exists>p\<in>set (ancestors path). files w p \<noteq> None then (Inl (NotADirectoryError path), w)
      else (Inr (), w\<lparr>directories := directories w @
                        [p \<leftarrow> ancestors path. p \<notin> set (directories w)] @ [path]\<rparr>))"

definition ensure_directory :: "string \<Rightarrow> world \<Rightarrow> unit result" where
  "ensure_directory path w =
     (if \<not> os_path_exists path w then os_makedirs path w else (Inr (), w))"

text \<open>
  \<^verbatim>\<open>
  async def process_batches(self, chunk_files: List[str]):
      ensure_directory(self.output_dir)
      failed_batches = []
      processed_files = []
      for chunk_file in tqdm_asyncio(chunk_files, desc="Processing Batches", unit="batch"):
          try:
              await self.process_batch(chunk_file)
              processed_files.append(chunk_file)
          except Exception as e:
              logger.error(f"Failed to process batch for file {chunk_file}: {e}")
              failed_batches.append(chunk_file)
      clean_up_files(processed_files, logger)
      if failed_batches:
          logger.warning(f"The following batches failed to process: {failed_batches}")
      else:
          logger.info("All batches processed successfully.")
  \<close>
  The Python returns nothing; the model returns the two lists as the loop leaves them,
  \<open>(processed_files, failed_batches)\<close>, so that theorems can speak of them.
  \<^verbatim>\<open>ensure_directory\<close> stands outside every \<^verbatim>\<open>try\<close>: what it raises, \<open>process_batches\<close>
  raises, before any unit is processed.
\<close>

fun process_batches_loop ::
  "string list \<Rightarrow> manager \<Rightarrow> string list \<Rightarrow> string list \<times> string list \<Rightarrow> world \<Rightarrow>
     ((string list \<times> string list) \<times> world) option" where
  "process_batches_loop g self [] acc w = Some (acc, w)"
| "process_batches_loop g self (chunk_file # rest) (processed_files, failed_batches) w =
     (case process_batch g self chunk_file w of
        None \<Rightarrow> None
      | Some (Inr _, w1) \<Rightarrow>
          process_batches_loop g self rest (processed_files @ [chunk_file], failed_batches) w1
      | Some (Inl e, w1) \<Rightarrow>
          process_batches_loop g self rest (processed_files, failed_batches @ [chunk_file])
            (logger (Failed_to_process_batch_for_file chunk_file e) w1))"

definition process_batches ::
  "string list \<Rightarrow> manager \<Rightarrow> string list \<Rightarrow> world \<Rightarrow> (string list \<times> string list) result option" where
  "process_batches g self chunk_files w =
     (case ensure_directory (output_dir self) w of
        (Inl e, w0) \<Rightarrow> Some (Inl e, w0)
      | (Inr _, w0) \<Rightarrow>
          (case process_batches_loop g self chunk_files ([], []) w0 of
             None \<Rightarrow> None
           | Some ((processed_files, failed_batches), w1) \<Rightarrow>
               let w2 = clean_up_files processed_files w1 in
               Some (Inr (processed_files, failed_batches),
                     if failed_batches \<noteq> [] then
                       logger (The_following_batches_failed failed_batches) w2
                     else logger All_batches_processed_successfully w2)))"

section \<open>cli.py\<close>

text \<open>
  \<^verbatim>\<open>
  async def run_batch_processing(input_file, output_dir, chunk_size, completion_window, endpoint):
      manager = BatchManager(api_key=API_KEY, endpoint=endpoint,
                             completion_window=completion_window, output_dir=output_dir)
      try:
          logging.info("Splitting the input JSONL file into chunks...")
          chunk_files = split_jsonl_file(input_file, chunk_size)
          logging.info(f"Total chunks created: {len(chunk_files)}")
          if not chunk_files:
              logging.warning("No chunks were created. Please check the input file and chunk size.")
              return
          await manager.process_batches(chunk_files)
      except Exception as e:
          logging.error(f"An error occurred during batch processing: {e}")
      finally:
          await manager.close()
  \<close>
  \<open>API_KEY\<close> comes from the configuration and is a parameter here, as is the namespace of
  \<^verbatim>\<open>batch_manager.py\<close>.
\<close>

definition run_batch_processing ::
  "string list \<Rightarrow> string \<Rightarrow> string \<Rightarrow> string \<Rightarrow> int \<Rightarrow> string \<Rightarrow> string \<Rightarrow> world \<Rightarrow> world option" where
  "run_batch_processing g API_KEY input_file output_dir' chunk_size completion_window' endpoint' w =
     (case BatchManager API_KEY endpoint' completion_window' output_dir' w of
        (manager, w0) \<Rightarrow>
          (case (case split_jsonl_file input_file chunk_size (logger Splitting_the_input w0) of
                   (Inl e, w1) \<Rightarrow> Some (Inl e, w1)
                 | (Inr chunk_files, w1) \<Rightarrow>
                     let w2 = logger (Total_chunks_created (length chunk_files)) w1 in
                     if chunk_files = [] then Some (Inr (), logger No_chunks_were_created w2)
                     else (case process_batches g manager chunk_files w2 of
                             None \<Rightarrow> None
                           | Some (Inl e, w3) \<Rightarrow> Some (Inl e, w3)
                           | Some (Inr _, w3) \<Rightarrow> Some (Inr (), w3))) of
             None \<Rightarrow> None
           | Some (Inl e, w4) \<Rightarrow> Some (close manager (logger (An_error_occurred e) w4))
           | Some (Inr _, w4) \<Rightarrow> Some (close manager w4)))"

section \<open>Definitions used to state the properties\<close>

subsection \<open>Observing a run\<close>

text \<open>
  What \<open>split_jsonl_file\<close> has written when it has flushed the chunks \<open>cs\<close>, the first
  under index \<open>i\<close>.
\<close>

fun write_chunks :: "string \<Rightarrow> nat \<Rightarrow> string list list \<Rightarrow> world \<Rightarrow> world" where
  "write_chunks input_file i [] w = w"
| "write_chunks input_file i (c # cs) w =
     write_chunks input_file (Suc i) cs (write_file (chunk_filename input_file i) c w)"

text \<open>The three kinds of request, and the status poll of one job.\<close>

definition is_upload :: "request \<Rightarrow> bool" where
  "is_upload req = (case req of Post_files _ _ _ \<Rightarrow> True | _ \<Rightarrow> False)"

definition is_submit :: "request \<Rightarrow> bool" where
  "is_submit req = (case req of Post_batches _ _ _ _ \<Rightarrow> True | _ \<Rightarrow> False)"

definition is_get :: "request \<Rightarrow> bool" where
  "is_get req = (case req of Get _ \<Rightarrow> True | _ \<Rightarrow> False)"

definition is_poll :: "string \<Rightarrow> request \<Rightarrow> bool" where
  "is_poll batch_id req \<longleftrightarrow> req = Get (''/v1/batches/'' @ batch_id)"

text \<open>
  What a stretch of the run of manager \<open>self\<close> may have done between the worlds \<open>w\<close> and
  \<open>w'\<close>: the service is the same, no client was constructed or closed, the requests
  sent since \<open>w\<close> all went through the client of \<open>self\<close> and are of kind \<open>K\<close>, only
  paths in \<open>W\<close> were written, and no file was removed.
\<close>

definition extends :: "manager \<Rightarrow> (request \<Rightarrow> bool) \<Rightarrow> (string \<Rightarrow> bool) \<Rightarrow> world \<Rightarrow> world \<Rightarrow> bool" where
  "extends self K W w w' \<longleftrightarrow>
     server w' = server w \<and> clients w' = clients w \<and> closed w' = closed w \<and>
     (\<exists>new. requests w' = requests w @ new \<and> (\<forall>x\<in>set new. fst x = client self \<and> K (snd x))) \<and>
     (\<forall>p. \<not> W p \<longrightarrow> files w' p = files w p) \<and>
     (\<forall>p. files w p \<noteq> None \<longrightarrow> files w' p \<noteq> None)"

text \<open>
  The outcome of poll number \<open>n\<close> (from 0) of the loop started in \<open>w\<close>, when every poll
  before it returned a snapshot and was followed by the 30 second sleep.
\<close>

fun nth_poll :: "nat \<Rightarrow> manager \<Rightarrow> string \<Rightarrow> world \<Rightarrow> (string \<rightharpoonup> string) result" where
  "nth_poll 0 self batch_id w = get_batch_status self batch_id w"
| "nth_poll (Suc n) self batch_id w =
     (case get_batch_status self batch_id w of
        (Inl e, w1) \<Rightarrow> (Inl e, w1)
      | (Inr status_info, w1) \<Rightarrow> nth_poll n self batch_id (sleep 30 w1))"

text \<open>The terminal statuses of the glossary: succeeded, failed, cancelled.\<close>

definition terminal :: "string option \<Rightarrow> bool" where
  "terminal status \<longleftrightarrow> status \<in> {Some ''succeeded'', Some ''failed'', Some ''cancelled''}"

text \<open>How the loop leaves on a terminal status: it breaks on success and raises otherwise.\<close>

definition leave :: "string \<Rightarrow> string option \<Rightarrow> exn + string option" where
  "leave batch_id status =
     (if status = Some ''succeeded'' then Inr status
      else Inl (RuntimeError (''Batch '' @ batch_id @ '' ended with status: '' @ the status)))"

text \<open>Poll \<open>n\<close> ends the loop: it raised, or its snapshot has a terminal status.\<close>

definition ends_at :: "nat \<Rightarrow> manager \<Rightarrow> string \<Rightarrow> world \<Rightarrow> bool" where
  "ends_at n self batch_id w =
     (case fst (nth_poll n self batch_id w) of
        Inl e \<Rightarrow> True
      | Inr status_info \<Rightarrow> terminal (status_info ''status''))"

text \<open>What the loop returns when it ends at a poll with outcome \<open>r\<close>.\<close>

definition left_with :: "string \<Rightarrow> (string \<rightharpoonup> string) result \<Rightarrow> string option result" where
  "left_with batch_id r =
     (case r of
        (Inl e, w) \<Rightarrow> (Inl e, w)
      | (Inr status_info, w) \<Rightarrow> (leave batch_id (status_info ''status''), w))"

subsection \<open>Attempts of a decorated call\<close>

text \<open>
  The world in which attempt number \<open>k + 1\<close> of a decorated call starts, when the \<open>k\<close>
  attempts before it were each followed by the record of the attempt number and the
  wait.
\<close>

fun before_attempt :: "operation \<Rightarrow> (nat \<Rightarrow> nat) \<Rightarrow> (world \<Rightarrow> 'a result) \<Rightarrow> world \<Rightarrow> nat \<Rightarrow> world" where
  "before_attempt op wait fn w 0 = w"
| "before_attempt op wait fn w (Suc k) =
     sleep (wait (Suc k)) (record_attempt op (Suc k) (snd (fn (before_attempt op wait fn w k))))"

text \<open>
  Attempt number \<open>k + 1\<close> decides a call with \<open>stop\<close> attempts: every attempt before it
  raised \<open>RequestError\<close>, and it is the last of the budget or does not raise
  \<open>RequestError\<close>.
\<close>

definition decides ::
  "nat \<Rightarrow> operation \<Rightarrow> (nat \<Rightarrow> nat) \<Rightarrow> (world \<Rightarrow> 'a result) \<Rightarrow> world \<Rightarrow> nat \<Rightarrow> bool" where
  "decides stop op wait fn w k \<longleftrightarrow>
     k < stop \<and>
     (\<forall>i<k. \<exists>m. fst (fn (before_attempt op wait fn w i)) = Inl (RequestError m)) \<and>
     (Suc k = stop \<or> (\<forall>m. fst (fn (before_attempt op wait fn w k)) \<noteq> Inl (RequestError m)))"

text \<open>What attempt number \<open>k + 1\<close> leaves: its result, with the attempt number recorded.\<close>

definition attempt_outcome ::
  "operation \<Rightarrow> (nat \<Rightarrow> nat) \<Rightarrow> (world \<Rightarrow> 'a result) \<Rightarrow> world \<Rightarrow> nat \<Rightarrow> 'a result" where
  "attempt_outcome op wait fn w k =
     (fst (fn (before_attempt op wait fn w k)),
      record_attempt op (Suc k) (snd (fn (before_attempt op wait fn w k))))"

subsection \<open>The units of a run\<close>

text \<open>
  The units of a list processed in turn, from the world \<open>w\<close>: each unit with what its
  \<open>process_batch\<close> returned or raised, called in the world that the unit before it left
  (after a unit that raised, with the line that \<open>process_batches\<close> logs for it). \<open>None\<close>
  when the processing of some unit never ends.
\<close>

fun unit_runs ::
  "string list \<Rightarrow> manager \<Rightarrow> string list \<Rightarrow> world \<Rightarrow> ((string \<times> (exn + unit)) list \<times> world) option" where
  "unit_runs g self [] w = Some ([], w)"
| "unit_runs g self (chunk_file # rest) w =
     (case process_batch g self chunk_file w of
        None \<Rightarrow> None
      | Some (r, w1) \<Rightarrow>
          (case unit_runs g self rest
                  (case r of
                     Inl e \<Rightarrow> logger (Failed_to_process_batch_for_file chunk_file e) w1
                   | Inr _ \<Rightarrow> w1) of
             None \<Rightarrow> None
           | Some (rs, w2) \<Rightarrow> Some ((chunk_file, r) # rs, w2)))"

text \<open>The units whose processing returned, and those whose processing raised, in order.\<close>

definition succeeded_units :: "(string \<times> (exn + unit)) list \<Rightarrow> string list" where
  "succeeded_units rs = map fst (filter (\<lambda>x. \<not> isl (snd x)) rs)"

definition failed_units :: "(string \<times> (exn + unit)) list \<Rightarrow> string list" where
  "failed_units rs = map fst (filter (\<lambda>x. isl (snd x)) rs)"

subsection \<open>Example worlds\<close>

text \<open>A world with one input file of five records, and a service that cannot be reached.\<close>

definition example_world :: world where
  "example_world =
     \<lparr>files = [''in.jsonl'' \<mapsto> [''r1'', ''r2'', ''r3'', ''r4'', ''r5'']],
      server = (\<lambda>n req. Network_failure ''unreachable''),
      requests = [], clients = 0, closed = [], directories = [], sleeps = [], log = [],
      statistics = (\<lambda>op. 0)\<rparr>"

text \<open>
  A manager whose client is client 0, and the world it works in: two chunk files of one
  record each, client 0 constructed and open, and the service given.
\<close>

definition example_manager :: manager where
  "example_manager =
     \<lparr>api_key = ''sk-test'', endpoint = ''/v1/completions'', completion_window = ''24h'',
      output_dir = ''out'', client = 0\<rparr>"

definition world_with :: "(nat \<Rightarrow> request \<Rightarrow> http_reply) \<Rightarrow> world" where
  "world_with srv =
     \<lparr>files = [''c1.jsonl'' \<mapsto> [''r1''], ''c2.jsonl'' \<mapsto> [''r2'']],
      server = srv, requests = [], clients = 1, closed = [], directories = [], sleeps = [],
      log = [], statistics = (\<lambda>op. 0)\<rparr>"

text \<open>A reply with a status code and a JSON object for its body.\<close>

definition reply_json :: "nat \<Rightarrow> (string \<times> string) list \<Rightarrow> http_reply" where
  "reply_json code kvs = Reply \<lparr>status_code = code, json_body = Some (Dict (map_of kvs)), content = [''result'']\<rparr>"

text \<open>
  Services: one whose first two replies are lost and which then accepts an upload; one
  that accepts an upload with a body that has no \<open>id\<close>; one that rejects everything with
  401; one that accepts uploads and rejects everything else with 400.
\<close>

definition flaky_server :: "nat \<Rightarrow> request \<Rightarrow> http_reply" where
  "flaky_server n req =
     (if n < 2 then Network_failure ''ConnectTimeout'' else reply_json 200 [(''id'', ''file-1'')])"


definition rejecting_server :: "nat \<Rightarrow> request \<Rightarrow> http_reply" where
  "rejecting_server n req = reply_json 401 [(''error'', ''invalid api key'')]"

definition submit_rejecting_server :: "nat \<Rightarrow> request \<Rightarrow> http_reply" where
  "submit_rejecting_server n req =
     (case req of
        Post_files name f purpose \<Rightarrow> reply_json 200 [(''id'', ''file-1'')]
      | _ \<Rightarrow> reply_json 400 [(''error'', ''bad request'')])"

text \<open>
  Services for the polling loop: one that reports \<open>completed\<close>, a status the loop does
  not know, for ever; one that reports \<open>succeeded\<close> at once.
\<close>

definition completed_server :: "nat \<Rightarrow> request \<Rightarrow> http_reply" where
  "completed_server n req = reply_json 200 [(''status'', ''completed'')]"

definition succeeded_server :: "nat \<Rightarrow> request \<Rightarrow> http_reply" where
  "succeeded_server n req = reply_json 200 [(''status'', ''succeeded'')]"

text \<open>
  A service that runs jobs: the job of the first chunk is in progress until the fifth
  request of the process and succeeded from then on, the job of the second chunk has
  failed.
\<close>

definition job_server :: "nat \<Rightarrow> request \<Rightarrow> http_reply" where
  "job_server n req =
     (case req of
        Post_files name f purpose \<Rightarrow> reply_json 200 [(''id'', ''file-'' @ name)]
      | Post_batches cw ep file_id md \<Rightarrow> reply_json 200 [(''id'', ''batch-'' @ file_id)]
      | Get url \<Rightarrow>
          if url = ''/v1/batches/batch-file-c1.jsonl'' then
            (if n < 4 then reply_json 200 [(''status'', ''in_progress'')]
             else reply_json 200 [(''status'', ''succeeded''),
                                  (''output_file_url'', ''/v1/files/out-1/content'')])
          else if url = ''/v1/batches/batch-file-c2.jsonl'' then
            reply_json 200 [(''status'', ''failed'')]
          else reply_json 200 [])"

text \<open>
  A service that rejects the upload of the first chunk and lets the second chunk go
  through to a succeeded job.
\<close>

definition mixed_server :: "nat \<Rightarrow> request \<Rightarrow> http_reply" where
  "mixed_server n req =
     (case req of
        Post_files name f purpose \<Rightarrow>
          if name = ''c1.jsonl'' then reply_json 401 [(''error'', ''invalid file'')]
          else reply_json 200 [(''id'', ''file-2'')]
      | Post_batches cw ep file_id md \<Rightarrow> reply_json 200 [(''id'', ''batch-2'')]
      | Get url \<Rightarrow> reply_json 200 [(''status'', ''succeeded''),
                                     (''output_file_url'', ''/v1/files/out-2/content'')])"

text \<open>A service that loses the first reply and rejects from then on.\<close>

definition lost_then_rejecting_server :: "nat \<Rightarrow> request \<Rightarrow> http_reply" where
  "lost_then_rejecting_server n req =
     (if n < 1 then Network_failure ''ReadTimeout''
      else reply_json 401 [(''error'', ''invalid api key'')])"


text \<open>
  The world of a whole run through the entry point: the input file of five records, no
  client yet, and the service that accepts every chunk but \<open>c1.jsonl\<close>.
\<close>

definition accepting_world :: world where
  "accepting_world = example_world\<lparr>server := mixed_server\<rparr>"

section \<open>The chunker\<close>

lemma digit_val_digit_char: "d < 10 \<Longrightarrow> digit_val (digit_char d) = d"
proof -
  assume "d < 10"
  then have "d = 0 \<or> d = 1 \<or> d = 2 \<or> d = 3 \<or> d = 4 \<or> d = 5 \<or> d = 6 \<or> d = 7 \<or> d = 8 \<or> d = 9"
    by arith
  then show ?thesis
    by (elim disjE) (simp_all add: digit_val_def digit_char_def)
qed

lemma nat_of_str_append: "nat_of_str (s @ [c]) = 10 * nat_of_str s + digit_val c"
  by (simp add: nat_of_str_def)

lemma nat_of_str_str_nat: "nat_of_str (str_nat n) = n"
proof (induction n rule: str_nat.induct)
  case (1 n)
  show ?case
  proof (cases "n < 10")
    case True
    then show ?thesis by (simp add: nat_of_str_def digit_val_digit_char)
  next
    case False
    then have "str_nat n = str_nat (n div 10) @ [digit_char (n mod 10)]"
      by (subst str_nat.simps) simp
    then show ?thesis
      using 1 False by (simp add: nat_of_str_append digit_val_digit_char del: str_nat.simps)
  qed
qed

lemma str_nat_inj: "str_nat i = str_nat j \<Longrightarrow> i = j"
  by (metis nat_of_str_str_nat)

lemma chunk_filename_inj: "chunk_filename f i = chunk_filename f j \<Longrightarrow> i = j"
  by (simp add: chunk_filename_def str_nat_inj del: str_nat.simps)

lemma write_chunks_snoc:
  "write_chunks f i (cs @ [c]) w = write_file (chunk_filename f (i + length cs)) c (write_chunks f i cs w)"
  by (induction cs arbitrary: i w) auto

lemma upt_add_Suc: "[i ..< i + Suc n] = i # [Suc i ..< Suc i + n]"
  by (metis add_Suc add_Suc_right less_add_Suc1 upt_conv_Cons)

lemma split_loop_pos:
  assumes "0 < k"
  shows "length chunk < nat k \<Longrightarrow> ln mod nat k = Suc (length chunk) mod nat k \<Longrightarrow>
    \<exists>new chunk'. split_loop f k ln infile chunk ci names w =
        (Inr (chunk', ci + length new, names @ map (chunk_filename f) [ci ..< ci + length new]),
         write_chunks f ci new w) \<and>
      concat new @ chunk' = chunk @ infile \<and> (\<forall>c\<in>set new. length c = nat k) \<and>
      length chunk' < nat k"
proof (induction infile arbitrary: chunk ci names ln w)
  case Nil
  show ?case
    by (rule exI [of _ "[]"]) (simp add: Nil)
next
  case (Cons line infile)
  let ?K = "nat k"
  have K: "0 < ?K" using assms by simp
  have mod_eq: "int ln mod k = int (ln mod ?K)"
    using assms by (simp add: zmod_int)
  have k0: "k \<noteq> 0" using assms by simp
  show ?case
  proof (cases "ln mod ?K = 0")
    case True
    then have full: "Suc (length chunk) = ?K"
      using Cons.prems K by (metis Suc_leI le_neq_implies_less mod_less nat.simps(3))
    let ?name = "chunk_filename f ci"
    let ?w1 = "write_file ?name (chunk @ [line]) w"
    have step: "split_loop f k ln (line # infile) chunk ci names w =
                split_loop f k (Suc ln) infile [] (ci + 1) (names @ [?name]) ?w1"
      using True k0 mod_eq by (simp add: py_mod_def Let_def)
    have "Suc ln mod ?K = Suc (length ([]::string list)) mod ?K"
      using True by (metis list.size(3) mod_Suc_eq)
    moreover have "length ([]::string list) < ?K" using K by simp
    ultimately obtain new chunk' where IH:
      "split_loop f k (Suc ln) infile [] (ci + 1) (names @ [?name]) ?w1 =
         (Inr (chunk', ci + 1 + length new,
               (names @ [?name]) @ map (chunk_filename f) [ci + 1 ..< ci + 1 + length new]),
          write_chunks f (ci + 1) new ?w1)"
      "concat new @ chunk' = [] @ infile" "\<forall>c\<in>set new. length c = ?K" "length chunk' < ?K"
      using Cons.IH [of "[]" "Suc ln" "ci + 1" "names @ [?name]" ?w1] by blast
    have e: "[ci ..< ci + length ((chunk @ [line]) # new)] = ci # [ci + 1 ..< ci + 1 + length new]"
      using upt_add_Suc [of ci "length new"] by simp
    show ?thesis
    proof (intro exI [of _ "(chunk @ [line]) # new"] exI [of _ chunk'] conjI)
      show "split_loop f k ln (line # infile) chunk ci names w =
         (Inr (chunk', ci + length ((chunk @ [line]) # new),
               names @ map (chunk_filename f) [ci ..< ci + length ((chunk @ [line]) # new)]),
          write_chunks f ci ((chunk @ [line]) # new) w)"
        unfolding e using step IH(1) by simp
      show "concat ((chunk @ [line]) # new) @ chunk' = chunk @ line # infile"
        using IH(2) by simp
      show "\<forall>c\<in>set ((chunk @ [line]) # new). length c = ?K"
        using IH(3) full by simp
      show "length chunk' < ?K" by (rule IH(4))
    qed
  next
    case False
    then have nf: "Suc (length chunk) \<noteq> ?K"
      using Cons.prems by (metis mod_self)
    have step: "split_loop f k ln (line # infile) chunk ci names w =
                split_loop f k (Suc ln) infile (chunk @ [line]) ci names w"
      using False k0 mod_eq by (simp add: py_mod_def Let_def)
    have "length (chunk @ [line]) < ?K" using nf Cons.prems by simp
    moreover have "Suc ln mod ?K = Suc (length (chunk @ [line])) mod ?K"
      using Cons.prems(2) by (simp add: mod_Suc_eq [symmetric, of ln] mod_Suc_eq)
    ultimately obtain new chunk' where IH:
      "split_loop f k (Suc ln) infile (chunk @ [line]) ci names w =
         (Inr (chunk', ci + length new, names @ map (chunk_filename f) [ci ..< ci + length new]),
          write_chunks f ci new w)"
      "concat new @ chunk' = (chunk @ [line]) @ infile" "\<forall>c\<in>set new. length c = ?K"
      "length chunk' < ?K"
      using Cons.IH [of "chunk @ [line]" "Suc ln" ci names w] by blast
    show ?thesis
      by (rule exI [of _ new], rule exI [of _ chunk']) (use step IH in simp)
  qed
qed

lemma files_write_chunks:
  "map (\<lambda>j. files (write_chunks f i cs w) (chunk_filename f j)) [i ..< i + length cs] = map Some cs"
proof (induction cs arbitrary: w rule: rev_induct)
  case Nil
  show ?case by simp
next
  case (snoc c cs)
  let ?W = "write_chunks f i cs w"
  let ?W' = "write_chunks f i (cs @ [c]) w"
  have W': "?W' = write_file (chunk_filename f (i + length cs)) c ?W"
    by (rule write_chunks_snoc)
  have neq: "chunk_filename f j \<noteq> chunk_filename f (i + length cs)" if "j < i + length cs" for j
    using chunk_filename_inj [of f j "i + length cs"] that by auto
  have old: "map (\<lambda>j. files ?W' (chunk_filename f j)) [i ..< i + length cs]
           = map (\<lambda>j. files ?W (chunk_filename f j)) [i ..< i + length cs]"
    unfolding W' by (rule map_cong) (auto simp: write_file_def neq)
  have new: "files ?W' (chunk_filename f (i + length cs)) = Some c"
    unfolding W' by (simp add: write_file_def)
  have "[i ..< i + length (cs @ [c])] = [i ..< i + length cs] @ [i + length cs]"
    by simp
  then show ?case
    using old new snoc.IH [of w] by simp
qed

lemma split_jsonl_file_units:
  assumes "files w f = Some records" and "0 < k"
  shows "\<exists>full rest. 
     split_jsonl_file f k w =
       (Inr (map (chunk_filename f) [1 ..< 1 + length (full @ (if rest = [] then [] else [rest]))]),
        write_chunks f 1 (full @ (if rest = [] then [] else [rest])) w) \<and>
     concat full @ rest = records \<and> (\<forall>c\<in>set full. length c = nat k) \<and> length rest < nat k"
proof -
  have "length ([]::string list) < nat k" "1 mod nat k = Suc (length ([]::string list)) mod nat k"
    using assms(2) by simp_all
  from split_loop_pos [OF assms(2) this, of f records 1 "[]" w]
  obtain new chunk' where L:
    "split_loop f k 1 records [] 1 [] w =
       (Inr (chunk', 1 + length new, map (chunk_filename f) [1 ..< 1 + length new]),
        write_chunks f 1 new w)"
    "concat new @ chunk' = records" "\<forall>c\<in>set new. length c = nat k" "length chunk' < nat k"
    by auto
  have "split_jsonl_file f k w =
       (Inr (map (chunk_filename f) [1 ..< 1 + length (new @ (if chunk' = [] then [] else [chunk']))]),
        write_chunks f 1 (new @ (if chunk' = [] then [] else [chunk'])) w)"
    using assms(1) L(1) by (simp add: split_jsonl_file_def write_chunks_snoc Let_def)
  then show ?thesis using L(2,3,4) by blast
qed

lemma ceil_div_full: "0 < K \<Longrightarrow> (m * K + K - 1) div K = (m::nat)"
  by (rule div_nat_eqI) (auto simp: algebra_simps)

lemma ceil_div_part: "0 < r \<Longrightarrow> r < K \<Longrightarrow> (m * K + r + K - 1) div K = Suc (m::nat)"
  by (rule div_nat_eqI) (auto simp: algebra_simps)

lemma length_concat_const: "\<forall>c\<in>set cs. length c = K \<Longrightarrow> length (concat cs) = length cs * K"
  by (induction cs) auto

text \<open>
  C2. For an input file of \<open>N\<close> records and a positive chunk size \<open>k\<close>, the chunker returns
  the names of \<open>\<lceil>N / k\<rceil>\<close> chunk files; read back in the order returned, their contents
  concatenate to the \<open>N\<close> records as they were; every unit but the last holds exactly \<open>k\<close>
  records, and every unit, so also the last, holds between 1 and \<open>k\<close>.
\<close>

theorem chunker_partition:
  assumes "files w input_file = Some records" and "0 < k"
  shows "\<exists>names units w'. split_jsonl_file input_file k w = (Inr names, w') \<and>
     map (files w') names = map Some units \<and>
     length units = (length records + nat k - 1) div nat k \<and>
     concat units = records \<and>
     (\<forall>i < length units. (Suc i < length units \<longrightarrow> length (units ! i) = nat k) \<and>
         1 \<le> length (units ! i) \<and> length (units ! i) \<le> nat k)"
proof -
  let ?K = "nat k"
  have K: "0 < ?K" using assms(2) by simp
  obtain full rest where S:
    "split_jsonl_file input_file k w =
       (Inr (map (chunk_filename input_file) [1 ..< 1 + length (full @ (if rest = [] then [] else [rest]))]),
        write_chunks input_file 1 (full @ (if rest = [] then [] else [rest])) w)"
    "concat full @ rest = records" "\<forall>c\<in>set full. length c = ?K" "length rest < ?K"
    using split_jsonl_file_units [OF assms] by blast
  let ?units = "full @ (if rest = [] then [] else [rest])"
  let ?names = "map (chunk_filename input_file) [1 ..< 1 + length ?units]"
  let ?w' = "write_chunks input_file 1 ?units w"
  have N: "length records = length full * ?K + length rest"
    using S(2) length_concat_const [OF S(3)] by (metis length_append)
  have files: "map (files ?w') ?names = map Some ?units"
    using files_write_chunks [of input_file 1 ?units w] by (simp only: map_map o_def)
  have len: "length ?units = (length records + ?K - 1) div ?K"
  proof (cases "rest = []")
    case True
    then show ?thesis using N K ceil_div_full [of ?K "length full"] by simp
  next
    case False
    then have "0 < length rest" by simp
    then show ?thesis using N S(4) False ceil_div_part [of "length rest" ?K "length full"] by simp
  qed
  have cat: "concat ?units = records" using S(2) by auto
  have sizes: "(Suc i < length ?units \<longrightarrow> length (?units ! i) = ?K) \<and>
         1 \<le> length (?units ! i) \<and> length (?units ! i) \<le> ?K" if "i < length ?units" for i
  proof (cases "i < length full")
    case True
    then have "length (?units ! i) = ?K" using S(3) by (simp add: nth_append)
    then show ?thesis using K by simp
  next
    case False
    then have i: "i = length full" "rest \<noteq> []" using that by (auto split: if_splits)
    then have "?units ! i = rest" by (simp add: nth_append)
    then show ?thesis using i S(4) by (simp add: Suc_leI)
  qed
  show ?thesis
    using S(1) files len cat sizes by blast
qed

theorem chunker_partition_witness:
  "\<exists>names units w'. split_jsonl_file ''in.jsonl'' 2 example_world = (Inr names, w') \<and>
     map (files w') names = map Some units \<and> length units = 3 \<and>
     concat units = [''r1'', ''r2'', ''r3'', ''r4'', ''r5'']"
proof -
  have f: "files example_world ''in.jsonl'' = Some [''r1'', ''r2'', ''r3'', ''r4'', ''r5'']"
    by (simp add: example_world_def)
  have k: "(0::int) < 2" by simp
  from chunker_partition [OF f k] obtain names units w' where
    "split_jsonl_file ''in.jsonl'' 2 example_world = (Inr names, w')"
    "map (files w') names = map Some units"
    "length units = (length [''r1'', ''r2'', ''r3'', ''r4'', ''r5''] + nat 2 - 1) div nat 2"
    "concat units = [''r1'', ''r2'', ''r3'', ''r4'', ''r5'']"
    by blast
  then show ?thesis by auto
qed

lemma split_jsonl_file_example:
  "fst (split_jsonl_file ''in.jsonl'' 2 example_world) =
     Inr [''in.jsonl_chunk_1.jsonl'', ''in.jsonl_chunk_2.jsonl'', ''in.jsonl_chunk_3.jsonl'']"
  "map (files (snd (split_jsonl_file ''in.jsonl'' 2 example_world)))
     [''in.jsonl_chunk_1.jsonl'', ''in.jsonl_chunk_2.jsonl'', ''in.jsonl_chunk_3.jsonl''] =
     [Some [''r1'', ''r2''], Some [''r3'', ''r4''], Some [''r5'']]"
  by (simp_all add: split_jsonl_file_def example_world_def py_mod_def chunk_filename_def
        write_file_def digit_char_def Let_def)

text \<open>
  C10. With chunk size 0 and an input of at least one record the chunker raises
  \<open>ZeroDivisionError\<close> (at the first record, before anything is written); with a positive
  chunk size the remainder is defined for every line number and the chunker returns its
  list of chunk files for every input file that exists.
\<close>

theorem chunk_size_precondition:
  "(files w input_file = Some (line # infile) \<longrightarrow>
      split_jsonl_file input_file 0 w = (Inl ZeroDivisionError, w)) \<and>
   (0 < k \<longrightarrow> (\<forall>line_number. \<exists>r. py_mod line_number k = Inr r)) \<and>
   (0 < k \<longrightarrow> files w input_file = Some records \<longrightarrow>
      (\<exists>names w'. split_jsonl_file input_file k w = (Inr names, w')))"
proof (intro conjI impI)
  assume "files w input_file = Some (line # infile)"
  then show "split_jsonl_file input_file 0 w = (Inl ZeroDivisionError, w)"
    by (simp add: split_jsonl_file_def py_mod_def)
next
  assume "0 < k"
  then show "\<forall>line_number. \<exists>r. py_mod line_number k = Inr r"
    by (simp add: py_mod_def)
next
  assume "0 < k" "files w input_file = Some records"
  from split_jsonl_file_units [OF this(2,1)]
  show "\<exists>names w'. split_jsonl_file input_file k w = (Inr names, w')"
    by blast
qed

theorem chunk_size_precondition_witness:
  "split_jsonl_file ''in.jsonl'' 0 example_world = (Inl ZeroDivisionError, example_world) \<and>
   (\<exists>r. py_mod 7 2 = Inr r) \<and>
   (\<exists>names w'. split_jsonl_file ''in.jsonl'' 2 example_world = (Inr names, w'))"
proof -
  have f: "files example_world ''in.jsonl'' = Some (''r1'' # [''r2'', ''r3'', ''r4'', ''r5''])"
    by (simp add: example_world_def)
  have k: "(0::int) < 2" by simp
  show ?thesis
    using chunk_size_precondition [of example_world "''in.jsonl''" "''r1''"
        "[''r2'', ''r3'', ''r4'', ''r5'']" 2 "''r1'' # [''r2'', ''r3'', ''r4'', ''r5'']"] f k
    by blast
qed

section \<open>The retry decorator\<close>

declare retrying.simps [simp del]

lemma retrying_success:
  "fn w = (Inr v, w1) \<Longrightarrow> retrying op stop wait a fn w = (Inr v, record_attempt op a w1)"
  by (subst retrying.simps) simp

lemma retrying_rejected:
  "fn w = (Inl e, w1) \<Longrightarrow> \<not> retry_if_exception_type e \<Longrightarrow>
   retrying op stop wait a fn w = (Inl e, record_attempt op a w1)"
  by (subst retrying.simps) simp

lemma retrying_exhausted:
  "fn w = (Inl e, w1) \<Longrightarrow> stop \<le> a \<Longrightarrow>
   retrying op stop wait a fn w = (Inl e, record_attempt op a w1)"
  by (subst retrying.simps) simp

lemma retrying_again:
  "fn w = (Inl e, w1) \<Longrightarrow> retry_if_exception_type e \<Longrightarrow> a < stop \<Longrightarrow>
   retrying op stop wait a fn w =
     retrying op stop wait (Suc a) fn (sleep (wait a) (record_attempt op a w1))"
  by (subst retrying.simps) simp

lemma retry_if_exception_type_iff: "retry_if_exception_type e \<longleftrightarrow> (\<exists>m. e = RequestError m)"
  by (cases e) (simp_all add: retry_if_exception_type_def)

text \<open>
  Whatever the decorated call returns is what its last attempt returned; the attempt
  number recorded is within the stop (when the first attempt is), and a retryable error
  comes out only when the stop is reached. \<open>I\<close> is any property of the world that the
  attempts, the sleeps and the statistics keep.
\<close>

lemma retrying_last:
  assumes fn: "\<And>w. I w \<Longrightarrow> I (snd (fn w))"
    and sl: "\<And>n w. I w \<Longrightarrow> I (sleep n w)"
    and re: "\<And>n w. I w \<Longrightarrow> I (record_attempt op n w)"
  shows "I w \<Longrightarrow> \<exists>wl b. I wl \<and> a \<le> b \<and> (b \<le> stop \<or> b = a) \<and>
     retrying op stop wait a fn w = (fst (fn wl), record_attempt op b (snd (fn wl))) \<and>
     (\<forall>e. fst (fn wl) = Inl e \<longrightarrow> retry_if_exception_type e \<longrightarrow> stop \<le> b)"
proof (induction "stop - a" arbitrary: a w)
  case 0
  then have "stop \<le> a" by simp
  then have "retrying op stop wait a fn w = (fst (fn w), record_attempt op a (snd (fn w)))"
    by (cases "fn w"; cases "fst (fn w)") (simp_all add: retrying_success retrying_exhausted)
  then show ?case using "0.prems" \<open>stop \<le> a\<close>
    by (intro exI [of _ w] exI [of _ a]) simp
next
  case (Suc n)
  obtain r w1 where f: "fn w = (r, w1)" by (cases "fn w")
  have a: "a < stop" using Suc.hyps(2) by simp
  show ?case
  proof (cases "\<exists>e. r = Inl e \<and> retry_if_exception_type e")
    case False
    then have "retrying op stop wait a fn w = (fst (fn w), record_attempt op a (snd (fn w)))"
      using f by (cases r) (simp_all add: retrying_success retrying_rejected)
    then show ?thesis using Suc.prems f False
      by (intro exI [of _ w] exI [of _ a]) auto
  next
    case True
    then obtain e where e: "r = Inl e" "retry_if_exception_type e" by blast
    let ?w2 = "sleep (wait a) (record_attempt op a w1)"
    have step: "retrying op stop wait a fn w = retrying op stop wait (Suc a) fn ?w2"
      using f e a by (simp add: retrying_again)
    have "I w1" using fn [OF Suc.prems] f by simp
    then have "I ?w2" by (intro sl re)
    moreover have "n = stop - Suc a" using Suc.hyps(2) by simp
    ultimately obtain wl b where "I wl" "Suc a \<le> b" "b \<le> stop \<or> b = Suc a"
        "retrying op stop wait (Suc a) fn ?w2 = (fst (fn wl), record_attempt op b (snd (fn wl)))"
        "\<forall>e. fst (fn wl) = Inl e \<longrightarrow> retry_if_exception_type e \<longrightarrow> stop \<le> b"
      using Suc.hyps(1) [of "Suc a" ?w2] by blast
    then show ?thesis using step a
      by (intro exI [of _ wl] exI [of _ b]) auto
  qed
qed

text \<open>A reflexive and transitive relation between worlds that every step keeps is kept.\<close>

lemma retrying_rel:
  assumes refl: "\<And>w. R w w" and trans: "\<And>a b c. R a b \<Longrightarrow> R b c \<Longrightarrow> R a c"
    and fn: "\<And>w. R w (snd (fn w))"
    and sl: "\<And>n w. R w (sleep n w)"
    and re: "\<And>n w. R w (record_attempt op n w)"
  shows "R w (snd (retrying op stop wait a fn w))"
proof -
  let ?I = "\<lambda>w'. R w w'"
  have "\<exists>wl b. ?I wl \<and> a \<le> b \<and> (b \<le> stop \<or> b = a) \<and>
     retrying op stop wait a fn w = (fst (fn wl), record_attempt op b (snd (fn wl))) \<and>
     (\<forall>e. fst (fn wl) = Inl e \<longrightarrow> retry_if_exception_type e \<longrightarrow> stop \<le> b)"
  proof (rule retrying_last [where I = ?I])
    show "R w w" by (rule refl)
    show "R w (snd (fn w'))" if "R w w'" for w' using that fn trans by blast
    show "R w (sleep n w')" if "R w w'" for n w' using that sl trans by blast
    show "R w (record_attempt op n w')" if "R w w'" for n w' using that re trans by blast
  qed
  then obtain wl b where "R w wl"
    "retrying op stop wait a fn w = (fst (fn wl), record_attempt op b (snd (fn wl)))"
    by blast
  then show ?thesis using fn re trans by (metis snd_conv)
qed

text \<open>The definitions that evaluate an upload in an example world.\<close>

lemmas eval_defs = upload_file_def upload_file_attempt_def world_with_def example_manager_def flaky_server_def
  reply_json_def load_global_def batch_manager_globals_def send_def except_log_def logger_def
  response_id_def raise_for_status_def json_def getitem_def basename_def
  retry_if_exception_type_def record_attempt_def sleep_def wait_exponential_def Let_def

section \<open>The operations keep to their client, their requests and their files\<close>

lemma extends_refl: "extends self K W w w"
  by (simp add: extends_def)

lemma extends_trans:
  assumes "extends self K W a b" and "extends self K W b c"
  shows "extends self K W a c"
proof -
  obtain n1 where 1: "requests b = requests a @ n1" "\<forall>x\<in>set n1. fst x = client self \<and> K (snd x)"
    using assms(1) unfolding extends_def by blast
  obtain n2 where 2: "requests c = requests b @ n2" "\<forall>x\<in>set n2. fst x = client self \<and> K (snd x)"
    using assms(2) unfolding extends_def by blast
  have "requests c = requests a @ (n1 @ n2)" "\<forall>x\<in>set (n1 @ n2). fst x = client self \<and> K (snd x)"
    using 1 2 by auto
  then have "\<exists>new. requests c = requests a @ new \<and> (\<forall>x\<in>set new. fst x = client self \<and> K (snd x))"
    by blast
  moreover have "server c = server a" "clients c = clients a" "closed c = closed a"
    "\<forall>p. \<not> W p \<longrightarrow> files c p = files a p" "\<forall>p. files a p \<noteq> None \<longrightarrow> files c p \<noteq> None"
    using assms unfolding extends_def by simp_all
  ultimately show ?thesis unfolding extends_def by blast
qed

lemma extends_mono:
  "extends self K W w w' \<Longrightarrow> (\<And>r. K r \<Longrightarrow> K' r) \<Longrightarrow> (\<And>p. W p \<Longrightarrow> W' p) \<Longrightarrow> extends self K' W' w w'"
  unfolding extends_def by blast

lemma extends_logger: "extends self K W w (logger e w)"
  by (simp add: extends_def logger_def)

lemma extends_sleep: "extends self K W w (sleep n w)"
  by (simp add: extends_def sleep_def)

lemma extends_record_attempt: "extends self K W w (record_attempt op n w)"
  by (simp add: extends_def record_attempt_def)

lemma extends_write_file: "W path \<Longrightarrow> extends self K W w (write_file path ls w)"
  by (simp add: extends_def write_file_def)

lemma extends_send: "K req \<Longrightarrow> extends self K W w (snd (send self req w))"
  by (simp add: extends_def send_def Let_def split: http_reply.split)

lemma extends_except_log:
  "extends self K W w (snd r) \<Longrightarrow> extends self K W w (snd (except_log h u r))"
  by (cases r; cases "fst r")
     (auto simp: except_log_def intro: extends_trans [OF _ extends_logger])

lemma extends_retrying:
  "(\<And>w. extends self K W w (snd (fn w))) \<Longrightarrow> extends self K W w (snd (retrying op stop wait a fn w))"
  by (rule retrying_rel [where R = "extends self K W"])
     (auto intro: extends_refl extends_trans extends_sleep extends_record_attempt)

lemma extends_upload_file_attempt:
  "extends self is_upload (\<lambda>p. False) w (snd (upload_file_attempt g self file_path w))"
proof -
  let ?w = "logger (Uploading_file file_path) w"
  have 1: "extends self is_upload (\<lambda>p. False) w ?w" by (rule extends_logger)
  have 2: "extends self is_upload (\<lambda>p. False) ?w (snd (send self (Post_files b f ''batch'') ?w))" for b f
    by (rule extends_send) (simp add: is_upload_def)
  have 3: "extends self is_upload (\<lambda>p. False) ?w
     (snd (case send self (Post_files b f ''batch'') ?w of
                    (Inl e, w1) \<Rightarrow> (Inl e, w1)
                  | (Inr response, w1) \<Rightarrow>
                      (case response_id response of
                         Inl e \<Rightarrow> (Inl e, w1)
                       | Inr file_id \<Rightarrow> (Inr file_id, logger (Uploaded_file_ID file_id) w1))))" for b f
    using 2 [of b f]
    by (auto split: prod.split sum.split intro: extends_trans [OF _ extends_logger])
  show ?thesis
    unfolding upload_file_attempt_def Let_def
    by (auto split: option.split sum.split
        intro!: extends_trans [OF 1] extends_except_log 3 extends_refl)
qed

lemma extends_upload_file:
  "extends self is_upload (\<lambda>p. False) w (snd (upload_file g self file_path w))"
  unfolding upload_file_def by (rule extends_retrying) (rule extends_upload_file_attempt)

section \<open>The retry policy of the four operations\<close>

lemma retrying_reaches:
  assumes "\<forall>i<j. \<exists>m. fst (fn (before_attempt op wait fn w i)) = Inl (RequestError m)"
    and "j < stop"
  shows "retrying op stop wait 1 fn w =
         retrying op stop wait (Suc j) fn (before_attempt op wait fn w j)"
  using assms
proof (induction j)
  case 0
  show ?case by simp
next
  case (Suc j)
  let ?B = "before_attempt op wait fn w"
  obtain m where "fst (fn (?B j)) = Inl (RequestError m)"
    using Suc.prems(1) by auto
  then have f: "fn (?B j) = (Inl (RequestError m), snd (fn (?B j)))"
    by (simp add: prod_eq_iff)
  have "retrying op stop wait 1 fn w = retrying op stop wait (Suc j) fn (?B j)"
    using Suc by simp
  also have "\<dots> = retrying op stop wait (Suc (Suc j)) fn
                     (sleep (wait (Suc j)) (record_attempt op (Suc j) (snd (fn (?B j)))))"
    using Suc.prems(2) f
    by (intro retrying_again [where e = "RequestError m" and ?w1.0 = "snd (fn (?B j))"])
       (simp_all add: retry_if_exception_type_def)
  finally show ?case by simp
qed

lemma retrying_decided:
  assumes "decides stop op wait fn w k"
  shows "retrying op stop wait (Suc 0) fn w = attempt_outcome op wait fn w k"
proof -
  let ?B = "before_attempt op wait fn w"
  have k: "k < stop"
    and before: "\<forall>i<k. \<exists>m. fst (fn (?B i)) = Inl (RequestError m)"
    and at: "Suc k = stop \<or> (\<forall>m. fst (fn (?B k)) \<noteq> Inl (RequestError m))"
    using assms by (simp_all add: decides_def)
  have r: "retrying op stop wait 1 fn w = retrying op stop wait (Suc k) fn (?B k)"
    by (rule retrying_reaches [OF before k])
  obtain x w1 where f: "fn (?B k) = (x, w1)" by (cases "fn (?B k)")
  have "retrying op stop wait (Suc k) fn (?B k) = (x, record_attempt op (Suc k) w1)"
  proof (cases x)
    case (Inr v)
    then show ?thesis using f by (simp add: retrying_success)
  next
    case (Inl e)
    show ?thesis
    proof (cases "retry_if_exception_type e")
      case False
      then show ?thesis using f Inl by (simp add: retrying_rejected)
    next
      case True
      then have "Suc k = stop"
        using at f Inl by (auto simp: retry_if_exception_type_iff)
      then show ?thesis using f Inl by (simp add: retrying_exhausted)
    qed
  qed
  then show ?thesis using r f by (simp add: attempt_outcome_def)
qed

lemma some_attempt_decides:
  assumes "0 < stop"
  shows "\<exists>k. decides stop op wait fn w k"
proof -
  let ?B = "before_attempt op wait fn w"
  let ?P = "\<lambda>k. Suc k = stop \<or> (\<forall>m. fst (fn (?B k)) \<noteq> Inl (RequestError m))"
  have "?P (stop - 1)" using assms by simp
  then obtain k where k: "?P k" "\<forall>i<k. \<not> ?P i" "k \<le> stop - 1"
    using exists_least_iff [of ?P] by (metis not_le_imp_less)
  then have "decides stop op wait fn w k"
    using assms by (auto simp: decides_def)
  then show ?thesis ..
qed

text \<open>
  C3. Every call of a client operation is decided by one attempt, number \<open>k + 1\<close>, within
  its budget: 5 for upload, submit and poll, 3 for fetch. The attempts before it all
  raised \<open>RequestError\<close> and were retried; the deciding attempt is the first that returns
  or raises anything else (an \<open>HTTPStatusError\<close> is never a \<open>RequestError\<close>), or else the
  last of the budget; and the call returns or raises exactly what that attempt did, with
  \<open>k + 1\<close> as the attempt number recorded. So a rejection at the first attempt gives
  one attempt, two transient failures and a success give three, and when the budget is
  used up the last \<open>RequestError\<close> comes out as it was raised.
\<close>

theorem retry_policy:
  "(\<exists>k. decides 5 Upload (wait_exponential 4 10) (upload_file_attempt g self file_path) w k) \<and>
   (\<forall>k. decides 5 Upload (wait_exponential 4 10) (upload_file_attempt g self file_path) w k \<longrightarrow>
      upload_file g self file_path w =
        attempt_outcome Upload (wait_exponential 4 10) (upload_file_attempt g self file_path) w k) \<and>
   (\<exists>k. decides 5 Submit (wait_exponential 4 10)
           (create_batch_attempt self input_file_id metadata) w k) \<and>
   (\<forall>k. decides 5 Submit (wait_exponential 4 10)
           (create_batch_attempt self input_file_id metadata) w k \<longrightarrow>
      create_batch self input_file_id metadata w =
        attempt_outcome Submit (wait_exponential 4 10)
          (create_batch_attempt self input_file_id metadata) w k) \<and>
   (\<exists>k. decides 5 Poll (wait_exponential 4 10) (get_batch_status_attempt self batch_id) w k) \<and>
   (\<forall>k. decides 5 Poll (wait_exponential 4 10) (get_batch_status_attempt self batch_id) w k \<longrightarrow>
      get_batch_status self batch_id w =
        attempt_outcome Poll (wait_exponential 4 10) (get_batch_status_attempt self batch_id) w k) \<and>
   (\<exists>k. decides 3 Fetch (wait_exponential 2 5)
           (download_batch_results_attempt self batch_id output_file) w k) \<and>
   (\<forall>k. decides 3 Fetch (wait_exponential 2 5)
           (download_batch_results_attempt self batch_id output_file) w k \<longrightarrow>
      download_batch_results self batch_id output_file w =
        attempt_outcome Fetch (wait_exponential 2 5)
          (download_batch_results_attempt self batch_id output_file) w k)"
  by (simp add: some_attempt_decides retrying_decided upload_file_def create_batch_def
      get_batch_status_def download_batch_results_def)


theorem retry_policy_witness:
  "fst (upload_file (''os'' # batch_manager_globals) example_manager ''c1.jsonl'' (world_with flaky_server))
     = Inr ''file-1'' \<and>
   statistics (snd (upload_file (''os'' # batch_manager_globals) example_manager ''c1.jsonl''
     (world_with flaky_server))) Upload = 3 \<and>
   fst (upload_file (''os'' # batch_manager_globals) example_manager ''c1.jsonl'' (world_with rejecting_server))
     = Inl (HTTPStatusError 401) \<and>
   statistics (snd (upload_file (''os'' # batch_manager_globals) example_manager ''c1.jsonl''
     (world_with rejecting_server))) Upload = 1 \<and>
   fst (upload_file (''os'' # batch_manager_globals) example_manager ''c1.jsonl''
     (world_with lost_then_rejecting_server)) = Inl (HTTPStatusError 401) \<and>
   statistics (snd (upload_file (''os'' # batch_manager_globals) example_manager ''c1.jsonl''
     (world_with lost_then_rejecting_server))) Upload = 2 \<and>
   fst (upload_file (''os'' # batch_manager_globals) example_manager ''c1.jsonl''
     (world_with (\<lambda>n req. Network_failure ''unreachable''))) = Inl (RequestError ''unreachable'') \<and>
   statistics (snd (upload_file (''os'' # batch_manager_globals) example_manager ''c1.jsonl''
     (world_with (\<lambda>n req. Network_failure ''unreachable'')))) Upload = 5 \<and>
   fst (download_batch_results example_manager ''batch-1'' ''out/r.jsonl''
     (world_with (\<lambda>n req. Network_failure ''unreachable''))) = Inl (RequestError ''unreachable'') \<and>
   statistics (snd (download_batch_results example_manager ''batch-1'' ''out/r.jsonl''
     (world_with (\<lambda>n req. Network_failure ''unreachable'')))) Fetch = 3"
proof -
  let ?g = "''os'' # batch_manager_globals"
  let ?fn = "upload_file_attempt ?g example_manager ''c1.jsonl''"
  let ?dl = "download_batch_results_attempt example_manager ''batch-1'' ''out/r.jsonl''"
  let ?wait = "wait_exponential 4 10"
  note ev = eval_defs decides_def attempt_outcome_def rejecting_server_def
    lost_then_rejecting_server_def less_Suc_eq numeral_2_eq_2 numeral_3_eq_3
    download_batch_results_attempt_def
  have d1: "decides 5 Upload ?wait ?fn (world_with flaky_server) 2"
    by (simp add: ev)
  have d2: "decides 5 Upload ?wait ?fn (world_with rejecting_server) 0"
    by (simp add: ev)
  have d3: "decides 5 Upload ?wait ?fn (world_with lost_then_rejecting_server) 1"
    by (simp add: ev)
  have d4: "decides 5 Upload ?wait ?fn (world_with (\<lambda>n req. Network_failure ''unreachable'')) 4"
    by (simp add: ev eval_nat_numeral)
  have d5: "decides 3 Fetch (wait_exponential 2 5) ?dl
              (world_with (\<lambda>n req. Network_failure ''unreachable'')) 2"
    by (simp add: ev get_batch_status_def get_batch_status_attempt_def retrying.simps
        response_json_def)
  have u: "upload_file ?g example_manager ''c1.jsonl'' w = attempt_outcome Upload ?wait ?fn w k"
    if "decides 5 Upload ?wait ?fn w k" for w k
    using retry_policy [of ?g example_manager "''c1.jsonl''" w] that by blast
  have f: "download_batch_results example_manager ''batch-1'' ''out/r.jsonl''
             (world_with (\<lambda>n req. Network_failure ''unreachable'')) =
           attempt_outcome Fetch (wait_exponential 2 5) ?dl
             (world_with (\<lambda>n req. Network_failure ''unreachable'')) 2"
    using retry_policy [where self = example_manager and batch_id = "''batch-1''"
        and output_file = "''out/r.jsonl''"
        and w = "world_with (\<lambda>n req. Network_failure ''unreachable'')"] d5 by blast
  have a1: "fst (attempt_outcome Upload ?wait ?fn (world_with flaky_server) 2) = Inr ''file-1''"
    "statistics (snd (attempt_outcome Upload ?wait ?fn (world_with flaky_server) 2)) Upload = 3"
    by (simp_all add: ev)
  have a2: "fst (attempt_outcome Upload ?wait ?fn (world_with rejecting_server) 0) = Inl (HTTPStatusError 401)"
    "statistics (snd (attempt_outcome Upload ?wait ?fn (world_with rejecting_server) 0)) Upload = 1"
    by (simp_all add: ev)
  have a3: "fst (attempt_outcome Upload ?wait ?fn (world_with lost_then_rejecting_server) 1)
              = Inl (HTTPStatusError 401)"
    "statistics (snd (attempt_outcome Upload ?wait ?fn (world_with lost_then_rejecting_server) 1)) Upload = 2"
    by (simp_all add: ev)
  have a4: "fst (attempt_outcome Upload ?wait ?fn (world_with (\<lambda>n req. Network_failure ''unreachable'')) 4)
              = Inl (RequestError ''unreachable'')"
    "statistics (snd (attempt_outcome Upload ?wait ?fn
        (world_with (\<lambda>n req. Network_failure ''unreachable'')) 4)) Upload = 5"
    by (simp_all add: ev eval_nat_numeral)
  have a5: "fst (attempt_outcome Fetch (wait_exponential 2 5) ?dl
               (world_with (\<lambda>n req. Network_failure ''unreachable'')) 2)
              = Inl (RequestError ''unreachable'')"
    "statistics (snd (attempt_outcome Fetch (wait_exponential 2 5) ?dl
        (world_with (\<lambda>n req. Network_failure ''unreachable'')) 2)) Fetch = 3"
    by (simp_all add: ev get_batch_status_def get_batch_status_attempt_def retrying.simps
        response_json_def)
  show ?thesis
    using a1 a2 a3 a4 a5 u [OF d1] u [OF d2] u [OF d3] u [OF d4] f by simp
qed

section \<open>What an upload returns or raises\<close>









text \<open>
  With the namespace as the source file leaves it, \<open>os\<close> is not bound: the upload of any
  file that exists raises \<open>NameError\<close> on its first attempt, before a request is sent.
\<close>

lemma upload_file_as_written:
  assumes "files w file_path = Some f"
  shows "upload_file batch_manager_globals self file_path w =
           (Inl (NameError ''os''), record_attempt Upload 1 (logger (Uploading_file file_path) w))"
proof -
  have "upload_file_attempt batch_manager_globals self file_path w =
          (Inl (NameError ''os''), logger (Uploading_file file_path) w)"
    using assms
    by (simp add: upload_file_attempt_def Let_def load_global_def batch_manager_globals_def logger_def)
  then show ?thesis
    unfolding upload_file_def
    by (rule retrying_rejected) (simp add: retry_if_exception_type_def)
qed


section \<open>The other client operations keep to their requests\<close>

lemma extends_create_batch:
  "extends self is_submit (\<lambda>p. False) w (snd (create_batch self input_file_id metadata w))"
proof -
  have a: "extends self is_submit (\<lambda>p. False) w (snd (create_batch_attempt self input_file_id metadata w))" for w
  proof -
    let ?w = "logger (Creating_batch_job_for_file_ID input_file_id) w"
    have 1: "extends self is_submit (\<lambda>p. False) w ?w" by (rule extends_logger)
    have 2: "extends self is_submit (\<lambda>p. False) ?w (snd (send self (Post_batches a b c d) ?w))" for a b c d
      by (rule extends_send) (simp add: is_submit_def)
    have 3: "extends self is_submit (\<lambda>p. False) ?w
       (snd (case send self (Post_batches a b c d) ?w of
                      (Inl e, w1) \<Rightarrow> (Inl e, w1)
                    | (Inr response, w1) \<Rightarrow>
                        (case response_id response of
                           Inl e \<Rightarrow> (Inl e, w1)
                         | Inr batch_id \<Rightarrow> (Inr batch_id, logger (Created_batch_ID batch_id) w1))))" for a b c d
      using 2 [of a b c d]
      by (auto split: prod.split sum.split intro: extends_trans [OF _ extends_logger])
    show ?thesis
      unfolding create_batch_attempt_def Let_def
      by (intro extends_trans [OF 1] extends_except_log 3)
  qed
  show ?thesis
    unfolding create_batch_def by (rule extends_retrying) (rule a)
qed

lemma extends_get_batch_status:
  "extends self (is_poll batch_id) (\<lambda>p. False) w (snd (get_batch_status self batch_id w))"
proof -
  have a: "extends self (is_poll batch_id) (\<lambda>p. False) w (snd (get_batch_status_attempt self batch_id w))" for w
  proof -
    have 2: "extends self (is_poll batch_id) (\<lambda>p. False) w (snd (send self (Get (''/v1/batches/'' @ batch_id)) w))"
      by (rule extends_send) (simp add: is_poll_def)
    have 3: "extends self (is_poll batch_id) (\<lambda>p. False) w
       (snd (case send self (Get (''/v1/batches/'' @ batch_id)) w of
          (Inl e, w1) \<Rightarrow> (Inl e, w1)
        | (Inr response, w1) \<Rightarrow>
            (case response_json response of
               Inl e \<Rightarrow> (Inl e, w1)
             | Inr status_info \<Rightarrow>
                 (case get_method status_info of
                    Inl e \<Rightarrow> (Inl e, w1)
                  | Inr d \<Rightarrow> (Inr d, w1)))))"
      using 2 by (auto split: prod.split sum.split)
    show ?thesis
      unfolding get_batch_status_attempt_def by (intro extends_except_log 3)
  qed
  show ?thesis
    unfolding get_batch_status_def by (rule extends_retrying) (rule a)
qed

lemma extends_download_batch_results:
  "extends self is_get (\<lambda>p. p = output_file) w (snd (download_batch_results self batch_id output_file w))"
proof -
  let ?E = "extends self is_get (\<lambda>p. p = output_file)"
  have a: "?E w (snd (download_batch_results_attempt self batch_id output_file w))" for w
  proof -
    let ?w = "logger (Downloading_results batch_id output_file) w"
    obtain r w1 where g: "get_batch_status self batch_id ?w = (r, w1)"
      by (cases "get_batch_status self batch_id ?w")
    have "extends self (is_poll batch_id) (\<lambda>p. False) ?w w1"
      using extends_get_batch_status [of self batch_id ?w] g by simp
    then have "?E ?w w1" by (rule extends_mono) (simp_all add: is_poll_def is_get_def)
    then have 1: "?E w w1" using extends_logger extends_trans by blast
    have 2: "?E w1 (snd (send self (Get url) w1))" for url
      by (rule extends_send) (simp add: is_get_def)
    have 3: "?E w1
       (snd (case send self (Get url) w1 of
                      (Inl e, w2) \<Rightarrow> (Inl e, w2)
                    | (Inr response, w2) \<Rightarrow>
                        (case raise_for_status response of
                           Inl e \<Rightarrow> (Inl e, w2)
                         | Inr _ \<Rightarrow>
                             (Inr (), logger (Downloaded_results_to output_file)
                                        (write_file output_file (content response) w2)))))" for url
      using 2 [of url]
      by (auto split: prod.split sum.split
          intro: extends_trans [OF extends_trans [OF _ extends_write_file] extends_logger])
    have 4: "?E w1 (logger e w1)" for e by (rule extends_logger)
    show ?thesis
      unfolding download_batch_results_attempt_def Let_def g
      by (auto split: sum.split option.split
          intro!: extends_trans [OF 1] extends_except_log 3 4 extends_refl)
  qed
  show ?thesis
    unfolding download_batch_results_def by (rule extends_retrying) (rule a)
qed

section \<open>The polling loop\<close>

lemma poll_loop_error:
  "get_batch_status self batch_id w = (Inl e, w1) \<Longrightarrow> poll_loop self batch_id w = Some (Inl e, w1)"
  by (subst poll_loop.simps) simp

lemma poll_loop_terminal:
  "get_batch_status self batch_id w = (Inr status_info, w1) \<Longrightarrow> terminal (status_info ''status'') \<Longrightarrow>
   poll_loop self batch_id w = Some (leave batch_id (status_info ''status''), w1)"
  by (subst poll_loop.simps) (auto simp: terminal_def leave_def)

lemma poll_loop_again:
  "get_batch_status self batch_id w = (Inr status_info, w1) \<Longrightarrow> \<not> terminal (status_info ''status'') \<Longrightarrow>
   poll_loop self batch_id w = poll_loop self batch_id (sleep 30 w1)"
  by (subst poll_loop.simps) (auto simp: terminal_def)

lemma poll_loop_first_end:
  "ends_at n self batch_id w \<Longrightarrow> \<forall>i<n. \<not> ends_at i self batch_id w \<Longrightarrow>
   poll_loop self batch_id w = Some (left_with batch_id (nth_poll n self batch_id w))"
proof (induction n arbitrary: w)
  case 0
  obtain r w1 where g: "get_batch_status self batch_id w = (r, w1)"
    by (cases "get_batch_status self batch_id w")
  show ?case
    using 0 g by (cases r) (simp_all add: ends_at_def left_with_def poll_loop_error poll_loop_terminal)
next
  case (Suc n)
  obtain r w1 where g: "get_batch_status self batch_id w = (r, w1)"
    by (cases "get_batch_status self batch_id w")
  have "\<not> ends_at 0 self batch_id w" using Suc.prems(2) by simp
  then obtain status_info where r: "r = Inr status_info" "\<not> terminal (status_info ''status'')"
    using g by (cases r) (simp_all add: ends_at_def)
  have nth: "nth_poll (Suc i) self batch_id w = nth_poll i self batch_id (sleep 30 w1)" for i
    using g r by simp
  have e: "ends_at (Suc i) self batch_id w = ends_at i self batch_id (sleep 30 w1)" for i
    by (simp only: ends_at_def nth)
  have "ends_at n self batch_id (sleep 30 w1)"
    using Suc.prems(1) by (simp only: e)
  moreover have "\<forall>i<n. \<not> ends_at i self batch_id (sleep 30 w1)"
    using Suc.prems(2) e by auto
  ultimately have "poll_loop self batch_id (sleep 30 w1) =
      Some (left_with batch_id (nth_poll n self batch_id (sleep 30 w1)))"
    by (rule Suc.IH)
  then show ?case
    using g r by (simp only: nth poll_loop_again [OF g [unfolded r(1)] r(2)])
qed

lemma poll_loop_returns_ends:
  assumes "poll_loop self batch_id w = Some y"
  shows "\<exists>n. ends_at n self batch_id w"
proof (rule poll_loop.raw_induct [where P = "\<lambda>self batch_id w y. \<exists>n. ends_at n self batch_id w" and y = y])
  show "poll_loop self batch_id w = Some y" by fact
next
  fix f self batch_id w and y :: "string option result"
  assume IH: "\<And>self batch_id w y. f self batch_id w = Some y \<Longrightarrow> \<exists>n. ends_at n self batch_id w"
    and F: "(case get_batch_status self batch_id w of
        (Inl e, w1) \<Rightarrow> Some (Inl e, w1)
      | (Inr status_info, w1) \<Rightarrow>
          (let status = status_info ''status'' in
           if status = Some ''succeeded'' then Some (Inr status, w1)
           else if status \<in> set [Some ''failed'', Some ''cancelled''] then
             Some (Inl (RuntimeError (''Batch '' @ batch_id @ '' ended with status: '' @ the status)), w1)
           else f self batch_id (sleep 30 w1))) = Some y"
  obtain r w1 where g: "get_batch_status self batch_id w = (r, w1)"
    by (cases "get_batch_status self batch_id w")
  show "\<exists>n. ends_at n self batch_id w"
  proof (cases "ends_at 0 self batch_id w")
    case True
    then show ?thesis by blast
  next
    case False
    then obtain status_info where r: "r = Inr status_info" "\<not> terminal (status_info ''status'')"
      using g by (cases r) (simp_all add: ends_at_def)
    then have "f self batch_id (sleep 30 w1) = Some y"
      using F g by (auto simp: terminal_def split: if_splits)
    then obtain n where "ends_at n self batch_id (sleep 30 w1)"
      using IH by blast
    then have "ends_at (Suc n) self batch_id w"
      using g r by (simp add: ends_at_def)
    then show ?thesis by blast
  qed
qed

lemma poll_loop_diverges:
  "\<forall>n. \<not> ends_at n self batch_id w \<Longrightarrow> poll_loop self batch_id w = None"
  using poll_loop_returns_ends by (metis option.exhaust)

lemma extends_nth_poll:
  "extends self (is_poll batch_id) (\<lambda>p. False) w (snd (nth_poll n self batch_id w))"
proof (induction n arbitrary: w)
  case 0
  show ?case by (simp add: extends_get_batch_status)
next
  case (Suc n)
  obtain r w1 where g: "get_batch_status self batch_id w = (r, w1)"
    by (cases "get_batch_status self batch_id w")
  have 1: "extends self (is_poll batch_id) (\<lambda>p. False) w w1"
    using extends_get_batch_status [of self batch_id w] g by simp
  show ?case
  proof (cases r)
    case (Inl e)
    then show ?thesis using g 1 by simp
  next
    case (Inr status_info)
    have a: "extends self (is_poll batch_id) (\<lambda>p. False) w (sleep 30 w1)"
      using 1 extends_sleep extends_trans by blast
    have b: "extends self (is_poll batch_id) (\<lambda>p. False) (sleep 30 w1)
               (snd (nth_poll n self batch_id (sleep 30 w1)))"
      by (rule Suc.IH)
    have "nth_poll (Suc n) self batch_id w = nth_poll n self batch_id (sleep 30 w1)"
      using g Inr by simp
    then show ?thesis
      using extends_trans [OF a b] by simp
  qed
qed

lemma get_batch_status_reply:
  assumes "client self \<notin> set (closed w)"
    and "server w (length (requests w)) (Get (''/v1/batches/'' @ batch_id)) = Reply r"
    and "200 \<le> status_code r" "status_code r < 300" "json_body r = Some (Dict d)"
  shows "get_batch_status self batch_id w =
     (Inr d, record_attempt Poll 1 (w\<lparr>requests := requests w @ [(client self, Get (''/v1/batches/'' @ batch_id))]\<rparr>))"
proof -
  have "get_batch_status_attempt self batch_id w =
     (Inr d, w\<lparr>requests := requests w @ [(client self, Get (''/v1/batches/'' @ batch_id))]\<rparr>)"
    using assms
    by (simp add: get_batch_status_attempt_def send_def Let_def except_log_def response_json_def
        raise_for_status_def json_def get_method_def)
  then show ?thesis
    unfolding get_batch_status_def by (rule retrying_success)
qed

lemma get_batch_status_reply_json:
  assumes "client self \<notin> set (closed w)"
    and "server w (length (requests w)) (Get (''/v1/batches/'' @ batch_id)) = reply_json code kvs"
    and "200 \<le> code" "code < 300"
  shows "get_batch_status self batch_id w =
     (Inr (map_of kvs),
      record_attempt Poll 1 (w\<lparr>requests := requests w @ [(client self, Get (''/v1/batches/'' @ batch_id))]\<rparr>))"
  using assms(2-4)
  by (intro get_batch_status_reply [OF assms(1),
        where r = "\<lparr>status_code = code, json_body = Some (Dict (map_of kvs)), content = [''result'']\<rparr>"])
     (simp_all add: reply_json_def)

text \<open>
  C9. Whenever a poll returns a status snapshot, the loop ends at that poll exactly when
  the \<open>status\<close> field is \<open>succeeded\<close> (it breaks), \<open>failed\<close> or \<open>cancelled\<close> (it raises);
  on every other value, a missing field included, it sleeps 30 seconds and polls again.
  So a loop all of whose polls return snapshots with other statuses never ends.
\<close>

theorem polling_status_vocabulary:
  "(\<forall>status_info w1. get_batch_status self batch_id w = (Inr status_info, w1) \<longrightarrow>
      (if status_info ''status'' = Some ''succeeded''
       then poll_loop self batch_id w = Some (Inr (Some ''succeeded''), w1)
       else if status_info ''status'' = Some ''failed'' \<or> status_info ''status'' = Some ''cancelled''
       then poll_loop self batch_id w =
              Some (Inl (RuntimeError (''Batch '' @ batch_id @ '' ended with status: '' @
                                        the (status_info ''status''))), w1)
       else poll_loop self batch_id w = poll_loop self batch_id (sleep 30 w1))) \<and>
   ((\<forall>n. \<exists>status_info w'. nth_poll n self batch_id w = (Inr status_info, w') \<and>
        status_info ''status'' \<notin> {Some ''succeeded'', Some ''failed'', Some ''cancelled''}) \<longrightarrow>
      poll_loop self batch_id w = None)"
proof (intro conjI allI impI)
  fix status_info w1
  assume g: "get_batch_status self batch_id w = (Inr status_info, w1)"
  show "if status_info ''status'' = Some ''succeeded''
       then poll_loop self batch_id w = Some (Inr (Some ''succeeded''), w1)
       else if status_info ''status'' = Some ''failed'' \<or> status_info ''status'' = Some ''cancelled''
       then poll_loop self batch_id w =
              Some (Inl (RuntimeError (''Batch '' @ batch_id @ '' ended with status: '' @
                                        the (status_info ''status''))), w1)
       else poll_loop self batch_id w = poll_loop self batch_id (sleep 30 w1)"
  proof (cases "terminal (status_info ''status'')")
    case True
    from poll_loop_terminal [OF g True] True show ?thesis
      by (auto simp: leave_def terminal_def)
  next
    case False
    from poll_loop_again [OF g False] False show ?thesis
      by (auto simp: terminal_def)
  qed
next
  assume a: "\<forall>n. \<exists>status_info w'. nth_poll n self batch_id w = (Inr status_info, w') \<and>
        status_info ''status'' \<notin> {Some ''succeeded'', Some ''failed'', Some ''cancelled''}"
  have "\<not> ends_at n self batch_id w" for n
    using a [rule_format, of n] by (auto simp: ends_at_def terminal_def)
  then show "poll_loop self batch_id w = None"
    by (simp add: poll_loop_diverges)
qed

lemma get_batch_status_completed:
  assumes "server w = completed_server" "client self \<notin> set (closed w)"
  shows "\<exists>d w1. get_batch_status self batch_id w = (Inr d, w1) \<and> d ''status'' = Some ''completed'' \<and>
           server w1 = completed_server \<and> client self \<notin> set (closed w1)"
proof -
  have "server w (length (requests w)) (Get (''/v1/batches/'' @ batch_id)) =
          reply_json 200 [(''status'', ''completed'')]"
    by (simp add: assms(1) completed_server_def)
  from get_batch_status_reply_json [OF assms(2) this]
  show ?thesis using assms by (simp add: record_attempt_def)
qed

lemma nth_poll_completed:
  "server w = completed_server \<Longrightarrow> client self \<notin> set (closed w) \<Longrightarrow>
   \<exists>d w'. nth_poll n self batch_id w = (Inr d, w') \<and> d ''status'' = Some ''completed''"
proof (induction n arbitrary: w)
  case 0
  from get_batch_status_completed [OF 0, of batch_id] show ?case by auto
next
  case (Suc n)
  from get_batch_status_completed [OF Suc.prems, of batch_id]
  obtain d w1 where g: "get_batch_status self batch_id w = (Inr d, w1)"
    "d ''status'' = Some ''completed''"
    "server w1 = completed_server" "client self \<notin> set (closed w1)" by blast
  have "server (sleep 30 w1) = completed_server" "client self \<notin> set (closed (sleep 30 w1))"
    using g(3,4) by (simp_all add: sleep_def)
  from Suc.IH [OF this] show ?case using g(1) by simp
qed

theorem polling_status_vocabulary_witness:
  "poll_loop example_manager ''batch-1'' (world_with completed_server) = None \<and>
   fst (the (poll_loop example_manager ''batch-1'' (world_with succeeded_server))) =
     Inr (Some ''succeeded'')"
proof -
  have never: "\<forall>n. \<exists>status_info w'.
      nth_poll n example_manager ''batch-1'' (world_with completed_server) = (Inr status_info, w') \<and>
      status_info ''status'' \<notin> {Some ''succeeded'', Some ''failed'', Some ''cancelled''}"
  proof
    fix n
    have "server (world_with completed_server) = completed_server"
      "client example_manager \<notin> set (closed (world_with completed_server))"
      by (simp_all add: world_with_def)
    from nth_poll_completed [OF this, of n "''batch-1''"]
    show "\<exists>status_info w'.
      nth_poll n example_manager ''batch-1'' (world_with completed_server) = (Inr status_info, w') \<and>
      status_info ''status'' \<notin> {Some ''succeeded'', Some ''failed'', Some ''cancelled''}"
      by auto
  qed
  have "server (world_with succeeded_server) (length (requests (world_with succeeded_server)))
          (Get (''/v1/batches/'' @ ''batch-1'')) = reply_json 200 [(''status'', ''succeeded'')]"
    "client example_manager \<notin> set (closed (world_with succeeded_server))"
    by (simp_all add: world_with_def succeeded_server_def)
  from get_batch_status_reply_json [OF this(2,1)]
  obtain d w1 where g: "get_batch_status example_manager ''batch-1'' (world_with succeeded_server) = (Inr d, w1)"
    "d ''status'' = Some ''succeeded''"
    by simp
  show ?thesis
    using polling_status_vocabulary [of example_manager "''batch-1''" "world_with completed_server"]
      polling_status_vocabulary [of example_manager "''batch-1''" "world_with succeeded_server"]
      never g
    by simp
qed

section \<open>One unit\<close>

lemma process_batch_upload_failed:
  "upload_file g self chunk_file w = (Inl e, w1) \<Longrightarrow>
   process_batch g self chunk_file w =
     Some (Inl e, logger (Error_processing_batch_for_file chunk_file e) w1)"
  by (simp add: process_batch_def)

lemma process_batch_submit_failed:
  "upload_file g self chunk_file w = (Inr file_id, w1) \<Longrightarrow>
   create_batch self file_id None w1 = (Inl e, w2) \<Longrightarrow>
   process_batch g self chunk_file w =
     Some (Inl e, logger (Error_processing_batch_for_file chunk_file e) w2)"
  by (simp add: process_batch_def)

lemma process_batch_polled:
  "upload_file g self chunk_file w = (Inr file_id, w1) \<Longrightarrow>
   create_batch self file_id None w1 = (Inr batch_id, w2) \<Longrightarrow>
   poll_loop self batch_id w2 = Some (r, w3) \<Longrightarrow>
   process_batch g self chunk_file w =
     (case r of
        Inl e \<Rightarrow> Some (Inl e, logger (Error_processing_batch_for_file chunk_file e) w3)
      | Inr status \<Rightarrow>
          if status = Some ''succeeded'' then
            (case download_batch_results self batch_id
                    (output_dir self @ ''/results_'' @ batch_id @ ''.jsonl'') w3 of
               (Inl e, w4) \<Rightarrow> Some (Inl e, logger (Error_processing_batch_for_file chunk_file e) w4)
             | (Inr u, w4) \<Rightarrow> Some (Inr (), w4))
          else Some (Inr (), w3))"
  by (simp add: process_batch_def Let_def split: sum.split)

lemma extends_new_requests:
  assumes "extends self K W w w'"
  shows "\<forall>x\<in>set (drop (length (requests w)) (requests w')). fst x = client self \<and> K (snd x)"
  using assms unfolding extends_def by auto

lemma extends_filter_requests:
  assumes "extends self K W w w'" and "\<And>r. K r \<Longrightarrow> \<not> Q r"
  shows "filter (\<lambda>x. Q (snd x)) (requests w') = filter (\<lambda>x. Q (snd x)) (requests w)"
proof -
  obtain new where "requests w' = requests w @ new" "\<forall>x\<in>set new. K (snd x)"
    using assms(1) unfolding extends_def by blast
  then show ?thesis using assms(2) by (simp add: filter_empty_conv)
qed

lemma extends_files_same: "extends self K (\<lambda>p. False) w w' \<Longrightarrow> files w' = files w"
  unfolding extends_def by auto

text \<open>
  C7. When the upload of a unit raises, \<open>process_batch\<close> logs the exception and raises it
  again, and the process has sent no submit request for the unit; when the upload returns
  and the submit raises, \<open>process_batch\<close> logs and raises that exception, and no \<open>GET\<close>
  request, with which polling begins, has been sent. In both cases the unit's processing
  ends there, with that exception.
\<close>

theorem failed_step_ends_unit:
  "(upload_file g self chunk_file w = (Inl e, w1) \<longrightarrow>
      (\<exists>w'. process_batch g self chunk_file w = Some (Inl e, w') \<and>
            w' = logger (Error_processing_batch_for_file chunk_file e) w1 \<and>
            filter (\<lambda>x. is_submit (snd x)) (requests w') = filter (\<lambda>x. is_submit (snd x)) (requests w) \<and>
            filter (\<lambda>x. is_get (snd x)) (requests w') = filter (\<lambda>x. is_get (snd x)) (requests w))) \<and>
   (upload_file g self chunk_file w = (Inr file_id, w1) \<and>
    create_batch self file_id None w1 = (Inl e, w2) \<longrightarrow>
      (\<exists>w'. process_batch g self chunk_file w = Some (Inl e, w') \<and>
            w' = logger (Error_processing_batch_for_file chunk_file e) w2 \<and>
            filter (\<lambda>x. is_get (snd x)) (requests w') = filter (\<lambda>x. is_get (snd x)) (requests w)))"
proof (intro conjI impI)
  assume up: "upload_file g self chunk_file w = (Inl e, w1)"
  have x: "extends self is_upload (\<lambda>p. False) w w1"
    using extends_upload_file [of self w g chunk_file] up by simp
  have "filter (\<lambda>x. is_submit (snd x)) (requests w1) = filter (\<lambda>x. is_submit (snd x)) (requests w)"
    "filter (\<lambda>x. is_get (snd x)) (requests w1) = filter (\<lambda>x. is_get (snd x)) (requests w)"
    by (rule extends_filter_requests [OF x]; simp add: is_upload_def is_submit_def is_get_def split: request.splits)+
  then show "\<exists>w'. process_batch g self chunk_file w = Some (Inl e, w') \<and>
            w' = logger (Error_processing_batch_for_file chunk_file e) w1 \<and>
            filter (\<lambda>x. is_submit (snd x)) (requests w') = filter (\<lambda>x. is_submit (snd x)) (requests w) \<and>
            filter (\<lambda>x. is_get (snd x)) (requests w') = filter (\<lambda>x. is_get (snd x)) (requests w)"
    using process_batch_upload_failed [OF up] by (simp add: logger_def)
next
  assume a: "upload_file g self chunk_file w = (Inr file_id, w1) \<and>
    create_batch self file_id None w1 = (Inl e, w2)"
  have x: "extends self is_upload (\<lambda>p. False) w w1"
    using extends_upload_file [of self w g chunk_file] a by simp
  have y: "extends self is_submit (\<lambda>p. False) w1 w2"
    using extends_create_batch [of self w1 file_id None] a by simp
  have "filter (\<lambda>x. is_get (snd x)) (requests w1) = filter (\<lambda>x. is_get (snd x)) (requests w)"
    by (rule extends_filter_requests [OF x]) (simp add: is_upload_def is_get_def split: request.splits)
  moreover have "filter (\<lambda>x. is_get (snd x)) (requests w2) = filter (\<lambda>x. is_get (snd x)) (requests w1)"
    by (rule extends_filter_requests [OF y]) (simp add: is_submit_def is_get_def split: request.splits)
  ultimately show "\<exists>w'. process_batch g self chunk_file w = Some (Inl e, w') \<and>
            w' = logger (Error_processing_batch_for_file chunk_file e) w2 \<and>
            filter (\<lambda>x. is_get (snd x)) (requests w') = filter (\<lambda>x. is_get (snd x)) (requests w)"
    using process_batch_submit_failed [of g self chunk_file w file_id w1 e w2] a by (simp add: logger_def)
qed

text \<open>The definitions that evaluate the other three operations in an example world.\<close>

lemmas eval_more = create_batch_def create_batch_attempt_def get_batch_status_def
  get_batch_status_attempt_def download_batch_results_def download_batch_results_attempt_def
  response_json_def get_method_def write_file_def

theorem failed_step_ends_unit_witness:
  "fst (the (process_batch (''os'' # batch_manager_globals) example_manager ''c1.jsonl''
               (world_with rejecting_server))) = Inl (HTTPStatusError 401) \<and>
   filter (\<lambda>x. is_submit (snd x))
     (requests (snd (the (process_batch (''os'' # batch_manager_globals) example_manager ''c1.jsonl''
               (world_with rejecting_server))))) = [] \<and>
   fst (the (process_batch (''os'' # batch_manager_globals) example_manager ''c1.jsonl''
               (world_with submit_rejecting_server))) = Inl (HTTPStatusError 400) \<and>
   filter (\<lambda>x. is_get (snd x))
     (requests (snd (the (process_batch (''os'' # batch_manager_globals) example_manager ''c1.jsonl''
               (world_with submit_rejecting_server))))) = []"
proof -
  let ?g = "''os'' # batch_manager_globals"
  define u1 where "u1 = snd (upload_file ?g example_manager ''c1.jsonl'' (world_with rejecting_server))"
  have up1: "upload_file ?g example_manager ''c1.jsonl'' (world_with rejecting_server) =
               (Inl (HTTPStatusError 401), u1)"
    unfolding u1_def by (simp add: prod_eq_iff) (simp add: eval_defs rejecting_server_def retrying.simps)
  define v1 where "v1 = snd (upload_file ?g example_manager ''c1.jsonl'' (world_with submit_rejecting_server))"
  define v2 where "v2 = snd (create_batch example_manager ''file-1'' None v1)"
  have up2: "upload_file ?g example_manager ''c1.jsonl'' (world_with submit_rejecting_server) =
               (Inr ''file-1'', v1)"
    unfolding v1_def
    by (simp add: prod_eq_iff) (simp add: eval_defs submit_rejecting_server_def retrying.simps)
  have sub2: "create_batch example_manager ''file-1'' None v1 = (Inl (HTTPStatusError 400), v2)"
    unfolding v2_def v1_def
    by (simp add: prod_eq_iff)
       (simp add: eval_defs eval_more submit_rejecting_server_def retrying.simps)
  from failed_step_ends_unit [of ?g example_manager "''c1.jsonl''" "world_with rejecting_server"
      "HTTPStatusError 401" u1] up1
  obtain w' where a:
    "process_batch ?g example_manager ''c1.jsonl'' (world_with rejecting_server) =
       Some (Inl (HTTPStatusError 401), w')"
    "filter (\<lambda>x. is_submit (snd x)) (requests w') =
       filter (\<lambda>x. is_submit (snd x)) (requests (world_with rejecting_server))"
    by blast
  from failed_step_ends_unit [of ?g example_manager "''c1.jsonl''" "world_with submit_rejecting_server"
      "HTTPStatusError 400" v1 "''file-1''" v2] up2 sub2
  obtain w'' where b:
    "process_batch ?g example_manager ''c1.jsonl'' (world_with submit_rejecting_server) =
       Some (Inl (HTTPStatusError 400), w'')"
    "filter (\<lambda>x. is_get (snd x)) (requests w'') =
       filter (\<lambda>x. is_get (snd x)) (requests (world_with submit_rejecting_server))"
    by blast
  show ?thesis
    using a b by (simp add: world_with_def)
qed

lemma nth_poll_error_stays:
  "nth_poll i self batch_id w = (Inl e, w') \<Longrightarrow> i \<le> n \<Longrightarrow> nth_poll n self batch_id w = (Inl e, w')"
proof (induction i arbitrary: n w)
  case 0
  then show ?case by (cases n) simp_all
next
  case (Suc i)
  then obtain m where n: "n = Suc m" "i \<le> m" by (cases n) simp_all
  obtain r w1 where g: "get_batch_status self batch_id w = (r, w1)"
    by (cases "get_batch_status self batch_id w")
  show ?case
  proof (cases r)
    case (Inl e')
    then show ?thesis using Suc.prems(1) g n by simp
  next
    case (Inr status_info)
    then have "nth_poll i self batch_id (sleep 30 w1) = (Inl e, w')"
      using Suc.prems(1) g by simp
    from Suc.IH [OF this n(2)] show ?thesis using g Inr n by simp
  qed
qed

lemma download_attempt_writes:
  "fst (download_batch_results_attempt self batch_id output_file w) = Inr u \<Longrightarrow>
   files (snd (download_batch_results_attempt self batch_id output_file w)) output_file \<noteq> None"
  by (auto simp: download_batch_results_attempt_def Let_def except_log_def logger_def write_file_def
      split: prod.splits sum.splits option.splits if_splits)

lemma download_batch_results_writes:
  assumes "download_batch_results self batch_id output_file w = (Inr u, w')"
  shows "files w' output_file \<noteq> None"
proof -
  let ?fn = "download_batch_results_attempt self batch_id output_file"
  have "\<exists>wl b. True \<and> 1 \<le> b \<and> (b \<le> 3 \<or> b = 1) \<and>
     retrying Fetch 3 (wait_exponential 2 5) 1 ?fn w = (fst (?fn wl), record_attempt Fetch b (snd (?fn wl))) \<and>
     (\<forall>e. fst (?fn wl) = Inl e \<longrightarrow> retry_if_exception_type e \<longrightarrow> 3 \<le> b)"
    by (rule retrying_last [where I = "\<lambda>w. True"]) simp_all
  then obtain wl b where
    "retrying Fetch 3 (wait_exponential 2 5) 1 ?fn w = (fst (?fn wl), record_attempt Fetch b (snd (?fn wl)))"
    by blast
  then have "fst (?fn wl) = Inr u" "w' = record_attempt Fetch b (snd (?fn wl))"
    using assms by (simp_all add: download_batch_results_def)
  then show ?thesis
    using download_attempt_writes [of self batch_id output_file wl u] by (simp add: record_attempt_def)
qed

text \<open>
  C4. Take a unit whose upload and submit have returned, and let poll number \<open>n\<close> be the
  first whose snapshot has a terminal status. Then the polling loop returns at that poll,
  in the world that poll left: no sleep and no request follow it. If the status is
  \<open>succeeded\<close>, \<open>process_batch\<close> goes on with \<open>download_batch_results\<close> for the job and the
  file \<open>{output_dir}/results_{batch_id}.jsonl\<close>, which exists when the download returns.
  If the status is \<open>failed\<close> or \<open>cancelled\<close>, \<open>process_batch\<close> raises \<open>RuntimeError\<close> in
  the world of that poll with one log line added: no file has been written since the unit
  began, and every request sent for the unit is its upload, its submit or a status poll.
\<close>

theorem polling_stops_at_first_terminal_status:
  assumes "upload_file g self chunk_file w = (Inr file_id, w1)"
    and "create_batch self file_id None w1 = (Inr batch_id, w2)"
    and "nth_poll n self batch_id w2 = (Inr status_info, w3)"
    and "terminal (status_info ''status'')"
    and "\<forall>i<n. \<forall>info wi. nth_poll i self batch_id w2 = (Inr info, wi) \<longrightarrow> \<not> terminal (info ''status'')"
  shows "poll_loop self batch_id w2 = Some (leave batch_id (status_info ''status''), w3) \<and>
     (if status_info ''status'' = Some ''succeeded'' then
        process_batch g self chunk_file w =
          (case download_batch_results self batch_id
                  (output_dir self @ ''/results_'' @ batch_id @ ''.jsonl'') w3 of
             (Inl e, w4) \<Rightarrow> Some (Inl e, logger (Error_processing_batch_for_file chunk_file e) w4)
           | (Inr u, w4) \<Rightarrow> Some (Inr (), w4)) \<and>
        (\<forall>u w4. download_batch_results self batch_id
                  (output_dir self @ ''/results_'' @ batch_id @ ''.jsonl'') w3 = (Inr u, w4) \<longrightarrow>
           files w4 (output_dir self @ ''/results_'' @ batch_id @ ''.jsonl'') \<noteq> None)
      else
        (\<exists>w'. process_batch g self chunk_file w =
                Some (Inl (RuntimeError (''Batch '' @ batch_id @ '' ended with status: '' @
                                          the (status_info ''status''))), w') \<and>
              w' = logger (Error_processing_batch_for_file chunk_file
                     (RuntimeError (''Batch '' @ batch_id @ '' ended with status: '' @
                                     the (status_info ''status'')))) w3 \<and>
              files w' = files w \<and>
              (\<forall>x\<in>set (drop (length (requests w)) (requests w')).
                 is_upload (snd x) \<or> is_submit (snd x) \<or> is_poll batch_id (snd x))))"
proof -
  let ?out = "output_dir self @ ''/results_'' @ batch_id @ ''.jsonl''"
  have e: "ends_at n self batch_id w2"
    using assms(3,4) by (simp add: ends_at_def)
  have ne: "\<forall>i<n. \<not> ends_at i self batch_id w2"
  proof (intro allI impI)
    fix i assume i: "i < n"
    obtain r wi where p: "nth_poll i self batch_id w2 = (r, wi)"
      by (cases "nth_poll i self batch_id w2")
    show "\<not> ends_at i self batch_id w2"
    proof (cases r)
      case (Inl e)
      then have "nth_poll n self batch_id w2 = (Inl e, wi)"
        using nth_poll_error_stays [of i self batch_id w2 e wi n] p i by simp
      then show ?thesis using assms(3) by simp
    next
      case (Inr info)
      then show ?thesis using assms(5) p i by (simp add: ends_at_def)
    qed
  qed
  have loop: "poll_loop self batch_id w2 = Some (leave batch_id (status_info ''status''), w3)"
    using poll_loop_first_end [OF e ne] assms(3) by (simp add: left_with_def)
  note pb = process_batch_polled [OF assms(1,2) loop]
  show ?thesis
  proof (cases "status_info ''status'' = Some ''succeeded''")
    case True
    then have "process_batch g self chunk_file w =
          (case download_batch_results self batch_id ?out w3 of
             (Inl e, w4) \<Rightarrow> Some (Inl e, logger (Error_processing_batch_for_file chunk_file e) w4)
           | (Inr u, w4) \<Rightarrow> Some (Inr (), w4))"
      using pb by (simp add: leave_def)
    then show ?thesis
      using True loop download_batch_results_writes by auto
  next
    case False
    let ?e = "RuntimeError (''Batch '' @ batch_id @ '' ended with status: '' @ the (status_info ''status''))"
    let ?w' = "logger (Error_processing_batch_for_file chunk_file ?e) w3"
    have p: "process_batch g self chunk_file w = Some (Inl ?e, ?w')"
      using pb False by (simp add: leave_def)
    let ?K = "\<lambda>r. is_upload r \<or> is_submit r \<or> is_poll batch_id r"
    have 1: "extends self ?K (\<lambda>p. False) w w1"
      using extends_upload_file [of self w g chunk_file] assms(1)
      by (auto intro: extends_mono)
    have 2: "extends self ?K (\<lambda>p. False) w1 w2"
      using extends_create_batch [of self w1 file_id None] assms(2)
      by (auto intro: extends_mono)
    have 3: "extends self ?K (\<lambda>p. False) w2 w3"
      using extends_nth_poll [of self batch_id w2 n] assms(3)
      by (auto intro: extends_mono)
    have "extends self ?K (\<lambda>p. False) w ?w'"
      by (rule extends_trans [OF extends_trans [OF extends_trans [OF 1 2] 3] extends_logger])
    then have "files ?w' = files w"
      "\<forall>x\<in>set (drop (length (requests w)) (requests ?w')). ?K (snd x)"
      using extends_files_same [of self ?K w ?w'] extends_new_requests [of self ?K "\<lambda>p. False" w ?w']
      by simp_all
    then show ?thesis
      using False loop p by simp
  qed
qed

text \<open>The definitions that evaluate a whole unit in an example world.\<close>

lemmas eval_all = eval_defs eval_more job_server_def retrying.simps

theorem polling_stops_at_first_terminal_status_witness:
  "fst (the (process_batch (''os'' # batch_manager_globals) example_manager ''c1.jsonl''
               (world_with job_server))) = Inr () \<and>
   files (snd (the (process_batch (''os'' # batch_manager_globals) example_manager ''c1.jsonl''
               (world_with job_server)))) ''out/results_batch-file-c1.jsonl.jsonl'' \<noteq> None \<and>
   fst (the (process_batch (''os'' # batch_manager_globals) example_manager ''c2.jsonl''
               (world_with job_server))) =
     Inl (RuntimeError ''Batch batch-file-c2.jsonl ended with status: failed'') \<and>
   files (snd (the (process_batch (''os'' # batch_manager_globals) example_manager ''c2.jsonl''
               (world_with job_server)))) = files (world_with job_server)"
proof -
  let ?g = "''os'' # batch_manager_globals"
  let ?w = "world_with job_server"
  \<comment> \<open>the first unit: two polls see the job in progress, the third sees it succeeded\<close>
  define w1 where "w1 = snd (upload_file ?g example_manager ''c1.jsonl'' ?w)"
  define w2 where "w2 = snd (create_batch example_manager ''file-c1.jsonl'' None w1)"
  define w3 where "w3 = snd (nth_poll (Suc (Suc 0)) example_manager ''batch-file-c1.jsonl'' w2)"
  define info where "info = map_of [(''status'', ''succeeded''),
                                  (''output_file_url'', ''/v1/files/out-1/content'')]"
  have up: "upload_file ?g example_manager ''c1.jsonl'' ?w = (Inr ''file-c1.jsonl'', w1)"
    unfolding w1_def by (simp add: prod_eq_iff) (simp add: eval_all)
  have sub: "create_batch example_manager ''file-c1.jsonl'' None w1 = (Inr ''batch-file-c1.jsonl'', w2)"
    unfolding w2_def w1_def by (simp add: prod_eq_iff) (simp add: eval_all)
  have p2: "nth_poll (Suc (Suc 0)) example_manager ''batch-file-c1.jsonl'' w2 = (Inr info, w3)"
    unfolding w3_def w2_def w1_def info_def by (simp add: prod_eq_iff) (simp add: eval_all)
  have t: "terminal (info ''status'')"
    by (simp add: info_def terminal_def)
  have p0: "\<not> terminal ((projr (fst (nth_poll 0 example_manager ''batch-file-c1.jsonl'' w2))) ''status'')"
    unfolding w2_def w1_def by (simp add: eval_all terminal_def)
  have p1: "\<not> terminal ((projr (fst (nth_poll (Suc 0) example_manager ''batch-file-c1.jsonl'' w2))) ''status'')"
    unfolding w2_def w1_def by (simp add: eval_all terminal_def)
  have first: "\<forall>i<Suc (Suc 0). \<forall>info' wi.
      nth_poll i example_manager ''batch-file-c1.jsonl'' w2 = (Inr info', wi) \<longrightarrow>
      \<not> terminal (info' ''status'')"
  proof (intro allI impI)
    fix i info' wi
    assume "i < Suc (Suc 0)" and n: "nth_poll i example_manager ''batch-file-c1.jsonl'' w2 = (Inr info', wi)"
    then have "i = 0 \<or> i = Suc 0" by auto
    then show "\<not> terminal (info' ''status'')"
      using p0 p1 n by auto
  qed
  from polling_stops_at_first_terminal_status [OF up sub p2 t first]
  have a: "process_batch ?g example_manager ''c1.jsonl'' ?w =
          (case download_batch_results example_manager ''batch-file-c1.jsonl''
                  (output_dir example_manager @ ''/results_'' @ ''batch-file-c1.jsonl'' @ ''.jsonl'') w3 of
             (Inl e, w4) \<Rightarrow> Some (Inl e, logger (Error_processing_batch_for_file ''c1.jsonl'' e) w4)
           | (Inr u, w4) \<Rightarrow> Some (Inr (), w4))"
    and a': "\<forall>u w4. download_batch_results example_manager ''batch-file-c1.jsonl''
                  (output_dir example_manager @ ''/results_'' @ ''batch-file-c1.jsonl'' @ ''.jsonl'') w3 = (Inr u, w4) \<longrightarrow>
           files w4 (output_dir example_manager @ ''/results_'' @ ''batch-file-c1.jsonl'' @ ''.jsonl'') \<noteq> None"
    by (simp_all add: info_def)
  have d: "fst (download_batch_results example_manager ''batch-file-c1.jsonl''
                  (output_dir example_manager @ ''/results_'' @ ''batch-file-c1.jsonl'' @ ''.jsonl'') w3) = Inr ()"
    unfolding w3_def w2_def w1_def by (simp add: eval_all)
  have first_unit:
    "fst (the (process_batch ?g example_manager ''c1.jsonl'' ?w)) = Inr ()"
    "files (snd (the (process_batch ?g example_manager ''c1.jsonl'' ?w)))
       ''out/results_batch-file-c1.jsonl.jsonl'' \<noteq> None"
    using a a' d
    by (auto simp: example_manager_def split: prod.splits sum.splits)
  \<comment> \<open>the second unit: the first poll sees the job failed\<close>
  define v1 where "v1 = snd (upload_file ?g example_manager ''c2.jsonl'' ?w)"
  define v2 where "v2 = snd (create_batch example_manager ''file-c2.jsonl'' None v1)"
  define v3 where "v3 = snd (nth_poll 0 example_manager ''batch-file-c2.jsonl'' v2)"
  define info2 where "info2 = map_of [(''status'', ''failed'')]"
  have up2: "upload_file ?g example_manager ''c2.jsonl'' ?w = (Inr ''file-c2.jsonl'', v1)"
    unfolding v1_def by (simp add: prod_eq_iff) (simp add: eval_all)
  have sub2: "create_batch example_manager ''file-c2.jsonl'' None v1 = (Inr ''batch-file-c2.jsonl'', v2)"
    unfolding v2_def v1_def by (simp add: prod_eq_iff) (simp add: eval_all)
  have q0: "nth_poll 0 example_manager ''batch-file-c2.jsonl'' v2 = (Inr info2, v3)"
    unfolding v3_def v2_def v1_def info2_def by (simp add: prod_eq_iff) (simp add: eval_all)
  have t2: "terminal (info2 ''status'')"
    by (simp add: info2_def terminal_def)
  have first2: "\<forall>i<0. \<forall>info' wi.
      nth_poll i example_manager ''batch-file-c2.jsonl'' v2 = (Inr info', wi) \<longrightarrow>
      \<not> terminal (info' ''status'')"
    by simp
  from polling_stops_at_first_terminal_status [OF up2 sub2 q0 t2 first2]
  obtain w' where b:
    "process_batch ?g example_manager ''c2.jsonl'' ?w =
       Some (Inl (RuntimeError (''Batch '' @ ''batch-file-c2.jsonl'' @ '' ended with status: '' @
                                 the (info2 ''status''))), w')"
    "files w' = files ?w"
    by (auto simp: info2_def)
  show ?thesis
    using first_unit b by (simp add: info2_def)
qed

section \<open>All units\<close>

lemma poll_loop_least:
  assumes "poll_loop self batch_id w = Some y"
  shows "\<exists>n. y = left_with batch_id (nth_poll n self batch_id w)"
proof -
  obtain m where "ends_at m self batch_id w"
    using poll_loop_returns_ends [OF assms] by blast
  then obtain n where n: "ends_at n self batch_id w" "\<forall>i<n. \<not> ends_at i self batch_id w"
    using exists_least_iff [of "\<lambda>n. ends_at n self batch_id w"] by blast
  from poll_loop_first_end [OF n] assms show ?thesis by auto
qed

lemma extends_poll_loop:
  assumes "poll_loop self batch_id w = Some (r, w')"
  shows "extends self (is_poll batch_id) (\<lambda>p. False) w w'"
proof -
  obtain n where "(r, w') = left_with batch_id (nth_poll n self batch_id w)"
    using poll_loop_least [OF assms] by blast
  then have "w' = snd (nth_poll n self batch_id w)"
    by (auto simp: left_with_def split: prod.splits sum.splits)
  then show ?thesis by (simp add: extends_nth_poll)
qed

lemma extends_any:
  "extends self K W w w' \<Longrightarrow> extends self (\<lambda>r. True) (\<lambda>p. True) w w'"
  by (rule extends_mono) simp_all

lemma extends_process_batch:
  assumes "process_batch g self chunk_file w = Some (r, w')"
  shows "extends self (\<lambda>r. True) (\<lambda>p. True) w w'"
proof -
  let ?E = "extends self (\<lambda>r. True) (\<lambda>p. True)"
  have lg: "?E a b \<Longrightarrow> ?E a (logger e b)" for a b e
    using extends_trans [OF _ extends_logger] by blast
  obtain r1 w1 where up: "upload_file g self chunk_file w = (r1, w1)"
    by (cases "upload_file g self chunk_file w")
  have 1: "?E w w1"
    using extends_upload_file [of self w g chunk_file] up by (auto intro: extends_any)
  show ?thesis
  proof (cases r1)
    case (Inl e)
    then show ?thesis using assms up 1 lg by (auto simp: process_batch_def)
  next
    case file_id: (Inr file_id)
    obtain r2 w2 where sub: "create_batch self file_id None w1 = (r2, w2)"
      by (cases "create_batch self file_id None w1")
    have "?E w1 w2"
      using extends_create_batch [of self w1 file_id None] sub by (auto intro: extends_any)
    then have 2: "?E w w2" using 1 extends_trans by blast
    show ?thesis
    proof (cases r2)
      case (Inl e)
      then show ?thesis using assms up file_id sub 2 lg by (auto simp: process_batch_def)
    next
      case batch_id: (Inr batch_id)
      from assms up file_id sub batch_id
      obtain r3 w3 where lp: "poll_loop self batch_id w2 = Some (r3, w3)"
        by (cases "poll_loop self batch_id w2") (auto simp: process_batch_def)
      have "?E w2 w3" using extends_poll_loop [OF lp] by (rule extends_any)
      then have 3: "?E w w3" using 2 extends_trans by blast
      let ?out = "output_dir self @ ''/results_'' @ batch_id @ ''.jsonl''"
      obtain r4 w4 where dl: "download_batch_results self batch_id ?out w3 = (r4, w4)"
        by (cases "download_batch_results self batch_id ?out w3")
      have "?E w3 w4"
        using extends_download_batch_results [of self ?out w3 batch_id] dl by (auto intro: extends_any)
      then have 4: "?E w w4" using 3 extends_trans by blast
      from process_batch_polled [OF up [unfolded file_id] sub [unfolded batch_id] lp] assms
      show ?thesis
        using 3 4 dl lg by (auto split: sum.splits if_splits)
    qed
  qed
qed

lemma extends_ensure_directory:
  "extends self K W w (snd (ensure_directory path w))"
  by (simp add: extends_def ensure_directory_def os_makedirs_def)

lemma ensure_directory_raises:
  "ensure_directory path w = (Inl e, w0) \<Longrightarrow> w0 = w"
  by (auto simp: ensure_directory_def os_makedirs_def split: if_splits)

lemma ensure_directory_files:
  "files (snd (ensure_directory path w)) = files w"
  by (simp add: ensure_directory_def os_makedirs_def)

lemma files_clean_up_files:
  "files (clean_up_files ps w) p = (if p \<in> set ps then None else files w p)"
  by (induction ps arbitrary: w) (auto simp: os_remove_def logger_def)

lemma requests_clean_up_files:
  "requests (clean_up_files ps w) = requests w \<and> closed (clean_up_files ps w) = closed w \<and>
   clients (clean_up_files ps w) = clients w \<and> server (clean_up_files ps w) = server w"
  by (induction ps arbitrary: w) (auto simp: os_remove_def logger_def)

section \<open>The units in turn\<close>

lemma unit_runs_names:
  "unit_runs g self cfs w = Some (outs, w1) \<Longrightarrow> map fst outs = cfs"
  by (induction cfs arbitrary: w outs) (auto split: option.splits prod.splits)

lemma extends_unit_runs:
  "unit_runs g self cfs w = Some (outs, w1) \<Longrightarrow> extends self (\<lambda>r. True) (\<lambda>p. True) w w1"
proof (induction cfs arbitrary: w outs)
  case Nil
  then show ?case by (simp add: extends_refl)
next
  case (Cons cf cfs)
  let ?E = "extends self (\<lambda>r. True) (\<lambda>p. True)"
  from Cons.prems obtain r wa where pb: "process_batch g self cf w = Some (r, wa)"
    by (cases "process_batch g self cf w") auto
  let ?wb = "case r of Inl e \<Rightarrow> logger (Failed_to_process_batch_for_file cf e) wa | Inr _ \<Rightarrow> wa"
  from Cons.prems pb obtain rs where rest: "unit_runs g self cfs ?wb = Some (rs, w1)"
    by (cases "unit_runs g self cfs ?wb") auto
  have "?E w wa" by (rule extends_process_batch [OF pb])
  moreover have "?E wa ?wb" by (cases r) (simp_all add: extends_logger extends_refl)
  moreover have "?E ?wb w1" by (rule Cons.IH [OF rest])
  ultimately show ?case using extends_trans by blast
qed

text \<open>
  The loop of \<open>process_batches\<close> goes through the units in turn and files each one under
  what its processing did: onto \<open>processed_files\<close> when it returned, onto
  \<open>failed_batches\<close> when it raised.
\<close>

lemma process_batches_loop_units:
  "process_batches_loop g self cfs (ps, fs) w =
     (case unit_runs g self cfs w of
        None \<Rightarrow> None
      | Some (outs, w1) \<Rightarrow> Some ((ps @ succeeded_units outs, fs @ failed_units outs), w1))"
proof (induction cfs arbitrary: ps fs w)
  case Nil
  show ?case by (simp add: succeeded_units_def failed_units_def)
next
  case (Cons cf cfs)
  show ?case
  proof (cases "process_batch g self cf w")
    case None
    then show ?thesis by simp
  next
    case (Some y)
    obtain r wa where y: "y = (r, wa)" by (cases y)
    show ?thesis
    proof (cases r)
      case (Inl e)
      then show ?thesis
        using Some y Cons.IH [of ps "fs @ [cf]" "logger (Failed_to_process_batch_for_file cf e) wa"]
        by (simp add: succeeded_units_def failed_units_def split: option.splits prod.splits)
    next
      case (Inr u)
      then show ?thesis
        using Some y Cons.IH [of "ps @ [cf]" fs wa]
        by (simp add: succeeded_units_def failed_units_def split: option.splits prod.splits)
    qed
  qed
qed

lemma process_batches_units:
  assumes "ensure_directory (output_dir self) w = (Inr (), w0)"
  shows "process_batches g self cfs w =
     (case unit_runs g self cfs w0 of
        None \<Rightarrow> None
      | Some (outs, w1) \<Rightarrow>
          Some (Inr (succeeded_units outs, failed_units outs),
                if failed_units outs \<noteq> [] then
                  logger (The_following_batches_failed (failed_units outs))
                    (clean_up_files (succeeded_units outs) w1)
                else logger All_batches_processed_successfully
                    (clean_up_files (succeeded_units outs) w1)))"
  using assms
  by (simp add: process_batches_def process_batches_loop_units Let_def split: option.splits prod.splits)

lemma process_batches_returned:
  assumes "process_batches g self cfs w = Some (Inr (ps, fs), w')"
  shows "\<exists>w0 outs w1.
           ensure_directory (output_dir self) w = (Inr (), w0) \<and>
           unit_runs g self cfs w0 = Some (outs, w1) \<and>
           ps = succeeded_units outs \<and> fs = failed_units outs \<and>
           w' = (if fs \<noteq> [] then logger (The_following_batches_failed fs) (clean_up_files ps w1)
                 else logger All_batches_processed_successfully (clean_up_files ps w1))"
proof -
  obtain r w0 where e: "ensure_directory (output_dir self) w = (r, w0)"
    by (cases "ensure_directory (output_dir self) w")
  have "r = Inr ()"
    using assms e by (cases r) (simp_all add: process_batches_def)
  then have e': "ensure_directory (output_dir self) w = (Inr (), w0)" using e by simp
  obtain outs w1 where u: "unit_runs g self cfs w0 = Some (outs, w1)"
    using assms process_batches_units [OF e', of g cfs]
    by (cases "unit_runs g self cfs w0") auto
  have "ps = succeeded_units outs" "fs = failed_units outs"
    "w' = (if fs \<noteq> [] then logger (The_following_batches_failed fs) (clean_up_files ps w1)
           else logger All_batches_processed_successfully (clean_up_files ps w1))"
    using assms process_batches_units [OF e', of g cfs] u by auto
  then show ?thesis using e' u by blast
qed

lemma units_disjoint:
  assumes "distinct (map fst outs)"
  shows "set (succeeded_units outs) \<inter> set (failed_units outs) = {}"
proof -
  have "inj_on fst (set outs)" using assms by (simp add: distinct_map)
  then show ?thesis
    by (auto simp: succeeded_units_def failed_units_def inj_on_def)
qed

text \<open>
  C5. After a run of \<open>process_batches\<close> that returned, over distinct chunk files: the
  units were processed in turn, \<open>processed_files\<close> are exactly the units whose processing
  returned (reached Succeeded) and \<open>failed_batches\<close> exactly those whose processing raised.
  Cleanup removes the processed chunk files from the disk as the last unit left it and
  touches no other file; and the chunk file of every failed unit that was on disk before
  the run is on disk after it.
\<close>

theorem cleanup_deletes_exactly_succeeded:
  assumes "process_batches g self chunk_files w = Some (Inr (processed_files, failed_batches), w')"
    and "distinct chunk_files"
  shows "\<exists>w0 outcomes w1.
           ensure_directory (output_dir self) w = (Inr (), w0) \<and>
           unit_runs g self chunk_files w0 = Some (outcomes, w1) \<and>
           map fst outcomes = chunk_files \<and>
           processed_files = succeeded_units outcomes \<and>
           failed_batches = failed_units outcomes \<and>
           (\<forall>p. files w' p = (if p \<in> set processed_files then None else files w1 p)) \<and>
           (\<forall>p\<in>set failed_batches. files w p \<noteq> None \<longrightarrow> files w' p \<noteq> None)"
proof -
  obtain w0 outs w1 where e: "ensure_directory (output_dir self) w = (Inr (), w0)"
    and u: "unit_runs g self chunk_files w0 = Some (outs, w1)"
    and ps: "processed_files = succeeded_units outs" and fs: "failed_batches = failed_units outs"
    and w': "w' = (if failed_batches \<noteq> [] then
                     logger (The_following_batches_failed failed_batches)
                       (clean_up_files processed_files w1)
                   else logger All_batches_processed_successfully (clean_up_files processed_files w1))"
    using process_batches_returned [OF assms(1)] by blast
  have names: "map fst outs = chunk_files" by (rule unit_runs_names [OF u])
  have f: "files w' p = (if p \<in> set processed_files then None else files w1 p)" for p
    using w' by (simp add: logger_def files_clean_up_files)
  have "files w0 = files w" using ensure_directory_files [of "output_dir self" w] e by simp
  moreover have "extends self (\<lambda>r. True) (\<lambda>p. True) w0 w1" by (rule extends_unit_runs [OF u])
  ultimately have keep: "files w p \<noteq> None \<Longrightarrow> files w1 p \<noteq> None" for p
    unfolding extends_def by auto
  have "set processed_files \<inter> set failed_batches = {}"
    using units_disjoint [of outs] names assms(2) ps fs by simp
  then have "\<forall>p\<in>set failed_batches. files w p \<noteq> None \<longrightarrow> files w' p \<noteq> None"
    using f keep by auto
  then show ?thesis using e u names ps fs f by blast
qed

text \<open>
  C6, as amended. When the output directory exists or can be made, \<open>process_batches\<close>
  does not raise. If the processing of some unit never ends, neither does the run. If the
  processing of every unit ends, every unit of the list is processed, in order and
  whatever the units before it did, and \<open>process_batches\<close> returns: the units whose
  processing raised are on \<open>failed_batches\<close>, the others on \<open>processed_files\<close>, and the last
  thing the run does, after cleanup, is to log the list of failed units when there is
  one, or else that all went well.
\<close>

theorem failure_is_confined_to_its_unit:
  assumes "ensure_directory (output_dir self) w = (Inr (), w0)"
  shows "case unit_runs g self chunk_files w0 of
           None \<Rightarrow> process_batches g self chunk_files w = None
         | Some (outcomes, w1) \<Rightarrow>
             map fst outcomes = chunk_files \<and>
             process_batches g self chunk_files w =
               Some (Inr (succeeded_units outcomes, failed_units outcomes),
                     if failed_units outcomes \<noteq> [] then
                       logger (The_following_batches_failed (failed_units outcomes))
                         (clean_up_files (succeeded_units outcomes) w1)
                     else logger All_batches_processed_successfully
                         (clean_up_files (succeeded_units outcomes) w1))"
  using process_batches_units [OF assms, of g chunk_files] unit_runs_names [of g self chunk_files w0]
  by (auto split: option.splits)

text \<open>
  C6 as stated fails. \<open>process_batches\<close> calls \<open>ensure_directory\<close> before its loop and
  outside every \<^verbatim>\<open>try\<close>: with an empty output directory, or one under a regular file,
  \<^verbatim>\<open>os.makedirs\<close> raises, \<open>process_batches\<close> raises with it, and no unit of the list is
  processed.
\<close>

theorem output_directory_failure_ends_run:
  "process_batches (''os'' # batch_manager_globals) (example_manager\<lparr>output_dir := ''''\<rparr>)
     [''c1.jsonl'', ''c2.jsonl''] (world_with mixed_server) =
     Some (Inl (FileNotFoundError ''''), world_with mixed_server) \<and>
   process_batches (''os'' # batch_manager_globals) (example_manager\<lparr>output_dir := ''c1.jsonl/out''\<rparr>)
     [''c1.jsonl'', ''c2.jsonl''] (world_with mixed_server) =
     Some (Inl (NotADirectoryError ''c1.jsonl/out''), world_with mixed_server)"
  by (simp add: process_batches_def ensure_directory_def os_path_exists_def os_makedirs_def
      ancestors_def example_manager_def world_with_def upt_rec)

section \<open>A run with one unit rejected and one succeeding\<close>

lemma mixed_keeps:
  assumes "extends example_manager K W w w'"
    and "server w = mixed_server" "client example_manager \<notin> set (closed w)"
  shows "server w' = mixed_server" "client example_manager \<notin> set (closed w')"
  using assms unfolding extends_def by auto

lemma mixed_unit_c1:
  assumes "server wa = mixed_server" "client example_manager \<notin> set (closed wa)"
    and "files wa ''c1.jsonl'' \<noteq> None"
  shows "\<exists>wb. process_batch (''os'' # batch_manager_globals) example_manager ''c1.jsonl'' wa =
           Some (Inl (HTTPStatusError 401), wb)"
proof -
  let ?g = "''os'' # batch_manager_globals"
  obtain f where f: "files wa ''c1.jsonl'' = Some f" using assms(3) by blast
  have "fst (upload_file ?g example_manager ''c1.jsonl'' wa) = Inl (HTTPStatusError 401)"
    using assms(1,2) f
    by (simp add: upload_file_def upload_file_attempt_def load_global_def send_def except_log_def
        logger_def response_id_def raise_for_status_def reply_json_def mixed_server_def basename_def
        retry_if_exception_type_def retrying.simps Let_def)
  then have "upload_file ?g example_manager ''c1.jsonl'' wa =
      (Inl (HTTPStatusError 401), snd (upload_file ?g example_manager ''c1.jsonl'' wa))"
    by (simp add: prod_eq_iff)
  from process_batch_upload_failed [OF this] show ?thesis by blast
qed

lemma mixed_unit_accepted:
  assumes "server wa = mixed_server" "client example_manager \<notin> set (closed wa)"
    and "files wa cf \<noteq> None" and "basename cf \<noteq> ''c1.jsonl''"
  shows "\<exists>wb. process_batch (''os'' # batch_manager_globals) example_manager cf wa =
           Some (Inr (), wb) \<and> length (requests wb) = length (requests wa) + 5"
proof -
  let ?g = "''os'' # batch_manager_globals"
  let ?m = example_manager
  obtain f where f: "files wa cf = Some f" using assms(3) by blast
  define w1 where "w1 = snd (upload_file ?g ?m cf wa)"
  have "fst (upload_file ?g ?m cf wa) = Inr ''file-2''"
    "length (requests (snd (upload_file ?g ?m cf wa))) = length (requests wa) + 1"
    using assms(1,2,4) f
    by (simp_all add: upload_file_def upload_file_attempt_def load_global_def send_def except_log_def
        logger_def response_id_def raise_for_status_def json_def getitem_def reply_json_def
        mixed_server_def record_attempt_def retrying.simps Let_def)
  then have up: "upload_file ?g ?m cf wa = (Inr ''file-2'', w1)"
    and n1: "length (requests w1) = length (requests wa) + 1"
    by (simp_all add: prod_eq_iff w1_def)
  have a1: "server w1 = mixed_server" "client ?m \<notin> set (closed w1)"
    using mixed_keeps [OF extends_upload_file [of ?m wa ?g cf] assms(1,2)]
    by (simp_all add: w1_def)
  define w2 where "w2 = snd (create_batch ?m ''file-2'' None w1)"
  have "fst (create_batch ?m ''file-2'' None w1) = Inr ''batch-2''"
    "length (requests (snd (create_batch ?m ''file-2'' None w1))) = length (requests w1) + 1"
    using a1
    by (simp_all add: create_batch_def create_batch_attempt_def send_def except_log_def
        logger_def response_id_def raise_for_status_def json_def getitem_def reply_json_def
        mixed_server_def record_attempt_def retrying.simps Let_def)
  then have sub: "create_batch ?m ''file-2'' None w1 = (Inr ''batch-2'', w2)"
    and n2: "length (requests w2) = length (requests w1) + 1"
    by (simp_all add: prod_eq_iff w2_def)
  have a2: "server w2 = mixed_server" "client ?m \<notin> set (closed w2)"
    using mixed_keeps [OF extends_create_batch [of ?m w1 "''file-2''" None] a1]
    by (simp_all add: w2_def)
  let ?kvs = "[(''status'', ''succeeded''), (''output_file_url'', ''/v1/files/out-2/content'')]"
  define w3 where "w3 = snd (get_batch_status ?m ''batch-2'' w2)"
  have "server w2 (length (requests w2)) (Get (''/v1/batches/'' @ ''batch-2'')) = reply_json 200 ?kvs"
    by (simp add: a2(1) mixed_server_def)
  from get_batch_status_reply_json [OF a2(2) this]
  have gs: "get_batch_status ?m ''batch-2'' w2 = (Inr (map_of ?kvs), w3)"
    and n3: "length (requests w3) = length (requests w2) + 1"
    by (simp_all add: w3_def record_attempt_def)
  have "terminal (map_of ?kvs ''status'')" by (simp add: terminal_def)
  from poll_loop_terminal [OF gs this]
  have lp: "poll_loop ?m ''batch-2'' w2 = Some (Inr (Some ''succeeded''), w3)"
    by (simp add: leave_def)
  have a3: "server w3 = mixed_server" "client ?m \<notin> set (closed w3)"
    using mixed_keeps [OF extends_get_batch_status [of ?m "''batch-2''" w2] a2]
    by (simp_all add: w3_def)
  let ?out = "output_dir ?m @ ''/results_'' @ ''batch-2'' @ ''.jsonl''"
  define w4 where "w4 = snd (download_batch_results ?m ''batch-2'' ?out w3)"
  have "fst (download_batch_results ?m ''batch-2'' ?out w3) = Inr ()"
    "length (requests (snd (download_batch_results ?m ''batch-2'' ?out w3))) = length (requests w3) + 2"
    using a3
    by (simp_all add: download_batch_results_def download_batch_results_attempt_def
        get_batch_status_def get_batch_status_attempt_def response_json_def send_def except_log_def
        logger_def raise_for_status_def json_def get_method_def reply_json_def record_attempt_def
        write_file_def mixed_server_def retrying.simps Let_def)
  then have dl: "download_batch_results ?m ''batch-2'' ?out w3 = (Inr (), w4)"
    and n4: "length (requests w4) = length (requests w3) + 2"
    by (simp_all add: prod_eq_iff w4_def)
  from process_batch_polled [OF up sub lp] dl
  have "process_batch ?g ?m cf wa = Some (Inr (), w4)" by simp
  then show ?thesis using n1 n2 n3 n4 by simp
qed

lemma ensure_directory_out:
  assumes "files w ''out'' = None"
  shows "ensure_directory ''out'' w =
           (Inr (), if ''out'' \<in> set (directories w) then w
                    else w\<lparr>directories := directories w @ [''out'']\<rparr>)"
  using assms
  by (simp add: ensure_directory_def os_path_exists_def os_makedirs_def ancestors_def upt_rec)

lemma mixed_units:
  "\<exists>w0 w1. ensure_directory (output_dir example_manager) (world_with mixed_server) = (Inr (), w0) \<and>
     unit_runs (''os'' # batch_manager_globals) example_manager [''c1.jsonl'', ''c2.jsonl''] w0 =
       Some ([(''c1.jsonl'', Inl (HTTPStatusError 401)), (''c2.jsonl'', Inr ())], w1)"
proof -
  let ?g = "''os'' # batch_manager_globals"
  let ?m = example_manager
  define w0 where "w0 = snd (ensure_directory (output_dir ?m) (world_with mixed_server))"
  have e: "ensure_directory (output_dir ?m) (world_with mixed_server) = (Inr (), w0)"
    unfolding w0_def
    by (simp add: prod_eq_iff) (simp add: ensure_directory_out example_manager_def world_with_def)
  have a0: "server w0 = mixed_server" "client ?m \<notin> set (closed w0)"
    "files w0 ''c1.jsonl'' \<noteq> None" "files w0 ''c2.jsonl'' \<noteq> None"
    unfolding w0_def
    by (simp_all add: ensure_directory_out example_manager_def world_with_def)
  from mixed_unit_c1 [OF a0(1,2,3)]
  obtain wb where c1: "process_batch ?g ?m ''c1.jsonl'' w0 = Some (Inl (HTTPStatusError 401), wb)"
    by blast
  let ?w1 = "logger (Failed_to_process_batch_for_file ''c1.jsonl'' (HTTPStatusError 401)) wb"
  have x: "extends ?m (\<lambda>r. True) (\<lambda>p. True) w0 ?w1"
    using extends_trans [OF extends_process_batch [OF c1] extends_logger] .
  have a1: "server ?w1 = mixed_server" "client ?m \<notin> set (closed ?w1)"
    using mixed_keeps [OF x a0(1,2)] .
  have "files ?w1 ''c2.jsonl'' \<noteq> None"
    using x a0(4) unfolding extends_def by blast
  from mixed_unit_accepted [OF a1 this]
  obtain wc where c2: "process_batch ?g ?m ''c2.jsonl'' ?w1 = Some (Inr (), wc)"
    by (auto simp: basename_def)
  show ?thesis
    using e c1 c2 by simp
qed

theorem cleanup_deletes_exactly_succeeded_witness:
  "\<exists>w'. process_batches (''os'' # batch_manager_globals) example_manager
           [''c1.jsonl'', ''c2.jsonl''] (world_with mixed_server) =
         Some (Inr ([''c2.jsonl''], [''c1.jsonl'']), w') \<and>
        files w' ''c2.jsonl'' = None \<and> files w' ''c1.jsonl'' \<noteq> None"
proof -
  let ?g = "''os'' # batch_manager_globals"
  let ?cfs = "[''c1.jsonl'', ''c2.jsonl'']"
  obtain w0 w1 where e: "ensure_directory (output_dir example_manager) (world_with mixed_server) = (Inr (), w0)"
    and u: "unit_runs ?g example_manager ?cfs w0 =
              Some ([(''c1.jsonl'', Inl (HTTPStatusError 401)), (''c2.jsonl'', Inr ())], w1)"
    using mixed_units by blast
  obtain w' where r: "process_batches ?g example_manager ?cfs (world_with mixed_server) =
         Some (Inr ([''c2.jsonl''], [''c1.jsonl'']), w')"
    using process_batches_units [OF e, of ?g ?cfs] u
    by (simp add: succeeded_units_def failed_units_def)
  have d: "distinct ?cfs" by simp
  have "files (world_with mixed_server) ''c1.jsonl'' \<noteq> None"
    by (simp add: world_with_def)
  then have "files w' ''c2.jsonl'' = None \<and> files w' ''c1.jsonl'' \<noteq> None"
    using cleanup_deletes_exactly_succeeded [OF r d] by auto
  then show ?thesis using r by blast
qed

theorem failure_is_confined_to_its_unit_witness:
  "\<exists>w'. process_batches (''os'' # batch_manager_globals) example_manager
           [''c1.jsonl'', ''c2.jsonl''] (world_with mixed_server) =
         Some (Inr ([''c2.jsonl''], [''c1.jsonl'']), w') \<and>
        last (log w') = The_following_batches_failed [''c1.jsonl'']"
proof -
  let ?g = "''os'' # batch_manager_globals"
  let ?cfs = "[''c1.jsonl'', ''c2.jsonl'']"
  obtain w0 w1 where e: "ensure_directory (output_dir example_manager) (world_with mixed_server) = (Inr (), w0)"
    and u: "unit_runs ?g example_manager ?cfs w0 =
              Some ([(''c1.jsonl'', Inl (HTTPStatusError 401)), (''c2.jsonl'', Inr ())], w1)"
    using mixed_units by blast
  show ?thesis
    using failure_is_confined_to_its_unit [OF e, of ?g ?cfs] u
    by (simp add: succeeded_units_def failed_units_def logger_def)
qed

section \<open>The entry point\<close>

lemma split_loop_frame:
  "requests (snd (split_loop f k ln infile chunk ci names w)) = requests w \<and>
   clients (snd (split_loop f k ln infile chunk ci names w)) = clients w \<and>
   closed (snd (split_loop f k ln infile chunk ci names w)) = closed w"
  by (induction infile arbitrary: ln chunk ci names w)
     (auto simp: Let_def py_mod_def write_file_def)

lemma split_jsonl_file_frame:
  "requests (snd (split_jsonl_file f k w)) = requests w \<and>
   clients (snd (split_jsonl_file f k w)) = clients w \<and>
   closed (snd (split_jsonl_file f k w)) = closed w"
proof (cases "files w f")
  case None
  then show ?thesis by (simp add: split_jsonl_file_def)
next
  case (Some infile)
  obtain r w1 where s: "split_loop f k 1 infile [] 1 [] w = (r, w1)"
    by (cases "split_loop f k 1 infile [] 1 [] w")
  have "requests w1 = requests w \<and> clients w1 = clients w \<and> closed w1 = closed w"
    using split_loop_frame [of f k 1 infile "[]" 1 "[]" w] s by simp
  then show ?thesis
    using Some s
    by (auto simp: split_jsonl_file_def Let_def write_file_def split: sum.splits prod.splits)
qed

lemma process_batches_frame:
  assumes "process_batches g self cfs w = Some (res, w')"
  shows "clients w' = clients w \<and> closed w' = closed w \<and>
         (\<exists>new. requests w' = requests w @ new \<and> (\<forall>x\<in>set new. fst x = client self))"
proof -
  obtain r w0 where e: "ensure_directory (output_dir self) w = (r, w0)"
    by (cases "ensure_directory (output_dir self) w")
  show ?thesis
  proof (cases r)
    case (Inl x)
    then have "w' = w"
      using assms e ensure_directory_raises [of "output_dir self" w x w0]
      by (simp add: process_batches_def)
    then show ?thesis by simp
  next
    case (Inr u)
    then have e': "ensure_directory (output_dir self) w = (Inr (), w0)" using e by simp
    from assms process_batches_units [OF e', of g cfs]
    obtain outs w1 where u: "unit_runs g self cfs w0 = Some (outs, w1)"
      and w': "w' = (if failed_units outs \<noteq> [] then
                       logger (The_following_batches_failed (failed_units outs))
                         (clean_up_files (succeeded_units outs) w1)
                     else logger All_batches_processed_successfully
                         (clean_up_files (succeeded_units outs) w1))"
      by (cases "unit_runs g self cfs w0") auto
    have x: "extends self (\<lambda>r. True) (\<lambda>p. True) w w1"
      using extends_trans [OF _ extends_unit_runs [OF u]]
        extends_ensure_directory [of self _ _ w "output_dir self"] e' by simp
    have 1: "clients w' = clients w1" "closed w' = closed w1" "requests w' = requests w1"
      using w' requests_clean_up_files [of "succeeded_units outs" w1] by (simp_all add: logger_def)
    show ?thesis
      using x 1 unfolding extends_def by auto
  qed
qed

text \<open>
  C8. A run of \<open>run_batch_processing\<close> that ends constructs one client, when it
  constructs the manager, and closes that client as the last thing it does: the world it
  leaves is the world at the end of the \<^verbatim>\<open>try\<close> statement with that client closed. Up to
  there no other client is constructed and none is closed, and every request sent went
  through that client. The end of the \<^verbatim>\<open>try\<close> statement is, on each path: the error
  logged, when splitting raised; the warning logged, when there are no chunks; and what
  \<open>process_batches\<close> left, with the error logged when it raised.
\<close>

theorem one_client_closed_at_the_end:
  assumes "run_batch_processing g API_KEY input_file output_dir' chunk_size completion_window'
             endpoint' w = Some w'"
  shows "\<exists>manager w0 w_last.
           BatchManager API_KEY endpoint' completion_window' output_dir' w = (manager, w0) \<and>
           client manager = clients w \<and> clients w0 = Suc (clients w) \<and>
           w' = close manager w_last \<and>
           clients w_last = Suc (clients w) \<and> closed w_last = closed w \<and>
           (\<forall>x\<in>set (drop (length (requests w)) (requests w_last)). fst x = client manager) \<and>
           (case split_jsonl_file input_file chunk_size (logger Splitting_the_input w0) of
              (Inl e, w1) \<Rightarrow> w_last = logger (An_error_occurred e) w1
            | (Inr chunk_files, w1) \<Rightarrow>
                if chunk_files = [] then
                  w_last = logger No_chunks_were_created (logger (Total_chunks_created 0) w1)
                else
                  (\<exists>r w3. process_batches g manager chunk_files
                             (logger (Total_chunks_created (length chunk_files)) w1) = Some (r, w3) \<and>
                     w_last = (case r of Inl e \<Rightarrow> logger (An_error_occurred e) w3 | Inr _ \<Rightarrow> w3)))"
proof -
  obtain manager w0 where m: "BatchManager API_KEY endpoint' completion_window' output_dir' w = (manager, w0)"
    by (cases "BatchManager API_KEY endpoint' completion_window' output_dir' w")
  then have m0: "client manager = clients w" "clients w0 = Suc (clients w)" "closed w0 = closed w"
    "requests w0 = requests w"
    by (auto simp: BatchManager_def)
  let ?ws = "logger Splitting_the_input w0"
  obtain r w1 where s: "split_jsonl_file input_file chunk_size ?ws = (r, w1)"
    by (cases "split_jsonl_file input_file chunk_size ?ws")
  have s1: "clients w1 = Suc (clients w)" "closed w1 = closed w" "requests w1 = requests w"
    using split_jsonl_file_frame [of input_file chunk_size ?ws] s m0 by (simp_all add: logger_def)
  let ?body = "\<lambda>w_last. case split_jsonl_file input_file chunk_size ?ws of
              (Inl e, w1) \<Rightarrow> w_last = logger (An_error_occurred e) w1
            | (Inr chunk_files, w1) \<Rightarrow>
                if chunk_files = [] then
                  w_last = logger No_chunks_were_created (logger (Total_chunks_created 0) w1)
                else
                  (\<exists>r w3. process_batches g manager chunk_files
                             (logger (Total_chunks_created (length chunk_files)) w1) = Some (r, w3) \<and>
                     w_last = (case r of Inl e \<Rightarrow> logger (An_error_occurred e) w3 | Inr _ \<Rightarrow> w3))"
  have main: "\<exists>w_last. w' = close manager w_last \<and> clients w_last = Suc (clients w) \<and>
          closed w_last = closed w \<and>
          (\<forall>x\<in>set (drop (length (requests w)) (requests w_last)). fst x = client manager) \<and>
          ?body w_last"
  proof (cases r)
    case (Inl e)
    let ?wl = "logger (An_error_occurred e) w1"
    have "w' = close manager ?wl"
      using assms m s Inl by (simp add: run_batch_processing_def)
    moreover have "?body ?wl" using s Inl by simp
    ultimately show ?thesis using s1 by (intro exI [of _ ?wl]) (simp add: logger_def)
  next
    case (Inr chunk_files)
    let ?w2 = "logger (Total_chunks_created (length chunk_files)) w1"
    show ?thesis
    proof (cases "chunk_files = []")
      case True
      let ?wl = "logger No_chunks_were_created (logger (Total_chunks_created 0) w1)"
      have "w' = close manager ?wl"
        using assms m s Inr True by (simp add: run_batch_processing_def Let_def)
      moreover have "?body ?wl" using s Inr True by simp
      ultimately show ?thesis using s1 by (intro exI [of _ ?wl]) (simp add: logger_def)
    next
      case False
      then obtain res w3 where pb: "process_batches g manager chunk_files ?w2 = Some (res, w3)"
        using assms m s Inr
        by (cases "process_batches g manager chunk_files ?w2")
           (auto simp: run_batch_processing_def Let_def)
      let ?wl = "case res of Inl e \<Rightarrow> logger (An_error_occurred e) w3 | Inr _ \<Rightarrow> w3"
      have w': "w' = close manager ?wl"
        using assms m s Inr False pb
        by (cases res) (simp_all add: run_batch_processing_def Let_def)
      from process_batches_frame [OF pb]
      obtain new where f: "clients w3 = clients ?w2" "closed w3 = closed ?w2"
        "requests w3 = requests ?w2 @ new" "\<forall>x\<in>set new. fst x = client manager"
        by blast
      have l: "clients ?wl = clients w3" "closed ?wl = closed w3" "requests ?wl = requests w3"
        by (cases res; simp add: logger_def)+
      have b: "?body ?wl" using s Inr False pb by auto
      have c: "clients ?wl = Suc (clients w)" "closed ?wl = closed w"
        "\<forall>x\<in>set (drop (length (requests w)) (requests ?wl)). fst x = client manager"
        using l f s1 by (simp_all add: logger_def)
      show ?thesis
        by (rule exI [of _ ?wl]) (intro conjI w' c b)
    qed
  qed
  from main obtain w_last where wl: "w' = close manager w_last" "clients w_last = Suc (clients w)"
    "closed w_last = closed w"
    "\<forall>x\<in>set (drop (length (requests w)) (requests w_last)). fst x = client manager"
    "?body w_last"
    by (elim exE conjE)
  show ?thesis
    by (rule exI [of _ manager], rule exI [of _ w0], rule exI [of _ w_last])
       (intro conjI m m0(1,2) wl)
qed

section \<open>Two runs through the entry point\<close>

lemma accepted_run:
  "\<exists>w'. run_batch_processing (''os'' # batch_manager_globals) ''sk-test'' ''in.jsonl'' ''out'' 5
           ''24h'' ''/v1/completions'' accepting_world = Some w' \<and>
         length (requests w') = 5 \<and> files w' ''in.jsonl_chunk_1.jsonl'' = None"
proof -
  let ?g = "''os'' # batch_manager_globals"
  let ?m = example_manager
  let ?cf = "''in.jsonl_chunk_1.jsonl''"
  define w0 where "w0 = accepting_world\<lparr>clients := 1\<rparr>"
  have bm: "BatchManager ''sk-test'' ''/v1/completions'' ''24h'' ''out'' accepting_world = (?m, w0)"
    by (simp add: BatchManager_def example_manager_def w0_def accepting_world_def example_world_def)
  define w1 where "w1 = snd (split_jsonl_file ''in.jsonl'' 5 (logger Splitting_the_input w0))"
  note ev = w0_def accepting_world_def split_jsonl_file_def example_world_def logger_def py_mod_def
    chunk_filename_def digit_char_def write_file_def Let_def
  have s: "split_jsonl_file ''in.jsonl'' 5 (logger Splitting_the_input w0) = (Inr [?cf], w1)"
    unfolding w1_def by (simp add: prod_eq_iff) (simp add: ev)
  define w2 where "w2 = logger (Total_chunks_created (length [?cf])) w1"
  have a2: "server w2 = mixed_server" "client ?m \<notin> set (closed w2)" "files w2 ?cf \<noteq> None"
    "files w2 ''out'' = None" "requests w2 = []"
    unfolding w2_def w1_def by (simp_all add: ev example_manager_def)
  define w3 where "w3 = snd (ensure_directory (output_dir ?m) w2)"
  have e: "ensure_directory (output_dir ?m) w2 = (Inr (), w3)"
    unfolding w3_def using a2(4)
    by (simp add: prod_eq_iff) (simp add: ensure_directory_out example_manager_def)
  have a3: "server w3 = mixed_server" "client ?m \<notin> set (closed w3)" "files w3 ?cf \<noteq> None"
    "requests w3 = []"
    unfolding w3_def using a2
    by (simp_all add: ensure_directory_out example_manager_def)
  have "basename ?cf \<noteq> ''c1.jsonl''" by (simp add: basename_def)
  from mixed_unit_accepted [OF a3(1,2,3) this]
  obtain wb where pb: "process_batch ?g ?m ?cf w3 = Some (Inr (), wb)"
    and n: "length (requests wb) = 5"
    using a3(4) by auto
  have u: "unit_runs ?g ?m [?cf] w3 = Some ([(?cf, Inr ())], wb)"
    using pb by simp
  define w4 where "w4 = logger All_batches_processed_successfully (clean_up_files [?cf] wb)"
  have pbs: "process_batches ?g ?m [?cf] w2 = Some (Inr ([?cf], []), w4)"
    using process_batches_units [OF e, of ?g "[?cf]"] u
    by (simp add: succeeded_units_def failed_units_def w4_def)
  have r: "run_batch_processing ?g ''sk-test'' ''in.jsonl'' ''out'' 5 ''24h'' ''/v1/completions''
             accepting_world = Some (close ?m w4)"
    using bm s pbs by (simp add: run_batch_processing_def w2_def)
  have "length (requests (close ?m w4)) = 5"
    using n requests_clean_up_files [of "[?cf]" wb] by (simp add: close_def w4_def logger_def)
  moreover have "files (close ?m w4) ?cf = None"
    using files_clean_up_files [of "[?cf]" wb ?cf] by (simp add: close_def w4_def logger_def)
  ultimately show ?thesis using r by blast
qed

theorem one_client_closed_at_the_end_witness:
  "(\<exists>w'. run_batch_processing batch_manager_globals ''sk-test'' ''in.jsonl'' ''out'' 0 ''24h''
            ''/v1/completions'' example_world = Some w' \<and>
          clients w' = 1 \<and> closed w' = [0] \<and> requests w' = [] \<and>
          last (log w') = An_error_occurred ZeroDivisionError) \<and>
   (\<exists>w'. run_batch_processing (''os'' # batch_manager_globals) ''sk-test'' ''in.jsonl'' ''out'' 5
            ''24h'' ''/v1/completions'' accepting_world = Some w' \<and>
          clients w' = 1 \<and> closed w' = [0] \<and> length (requests w') = 5 \<and>
          (\<forall>x\<in>set (requests w'). fst x = 0))"
proof -
  let ?g = "''os'' # batch_manager_globals"
  obtain wz where z: "run_batch_processing batch_manager_globals ''sk-test'' ''in.jsonl'' ''out'' 0
      ''24h'' ''/v1/completions'' example_world = Some wz"
    by (simp add: run_batch_processing_def BatchManager_def split_jsonl_file_def example_world_def
        logger_def py_mod_def Let_def)
  have sz: "split_jsonl_file ''in.jsonl'' 0 (logger Splitting_the_input
              (example_world\<lparr>clients := Suc (clients example_world)\<rparr>)) =
            (Inl ZeroDivisionError, logger Splitting_the_input
              (example_world\<lparr>clients := Suc (clients example_world)\<rparr>))"
    by (simp add: split_jsonl_file_def example_world_def logger_def py_mod_def Let_def)
  from one_client_closed_at_the_end [OF z]
  have 1: "clients wz = 1 \<and> closed wz = [0] \<and> requests wz = [] \<and>
           last (log wz) = An_error_occurred ZeroDivisionError"
    by (auto simp: BatchManager_def sz close_def) (simp_all add: example_world_def logger_def)
  obtain wf where f: "run_batch_processing ?g ''sk-test'' ''in.jsonl'' ''out'' 5 ''24h''
      ''/v1/completions'' accepting_world = Some wf"
    and n: "length (requests wf) = 5"
    using accepted_run by blast
  from one_client_closed_at_the_end [OF f]
  obtain w_last where l: "wf = close example_manager w_last" "clients w_last = 1" "closed w_last = []"
    "\<forall>x\<in>set (drop (length (requests accepting_world)) (requests w_last)). fst x = 0"
    by (auto simp: BatchManager_def example_manager_def accepting_world_def example_world_def)
  have 2: "clients wf = 1 \<and> closed wf = [0] \<and> length (requests wf) = 5 \<and>
           (\<forall>x\<in>set (requests wf). fst x = 0)"
    using l n by (simp add: close_def example_manager_def accepting_world_def example_world_def)
  show ?thesis using z 1 f 2 by blast
qed

end
